theory Spec2Isabelle
  imports Complex_Main
begin

section \<open>The chat widget of the UAV log viewer (FloatingButton.vue)\<close>

text \<open>
  The component keeps its session in the fields returned by \<open>data ()\<close> and changes them
  in its methods and in the four handlers it installs on every WebSocket it constructs.
  The model is a state record with the same fields, one HOL function per method or
  handler, and five fields for what lives outside the component: whether it is subscribed
  to the event hub, the WebSocket objects constructed so far, the pending reconnect
  timeouts, the calls of \<open>sendFileChunks\<close> that are suspended at an \<open>await\<close>, and the
  ordered log of chunk reads and of frames handed to \<open>send\<close>.

  Values that the platform supplies (the clock, \<open>Math.random\<close>, the wording of
  \<open>Error.message\<close>, the telemetry snapshot) are the fields of an environment record
  passed to each operation. Console output and the scrolling of the message pane are not
  modelled.
\<close>

subsection \<open>Strings and values\<close>

text \<open>
  A JavaScript string is a sequence of UTF-16 code units, here natural numbers below
  65536. \<open>str\<close> gives the string of an ASCII literal.
\<close>

type_synonym jstring = "nat list"

definition str :: "string \<Rightarrow> jstring" where
  "str cs = map of_char cs"

text \<open>
  What \<open>JSON.parse\<close> can put into a field of a message, and \<open>undefined\<close> for a field
  that is absent. A number is given by the text that its conversion to a string yields.
\<close>

datatype jsval =
    JUndefined
  | JNull
  | JBool bool
  | JNum jstring
  | JStr jstring
  | JArr "jsval list"
  | JObj "(jstring \<times> jsval) list"

text \<open>
  The conversion to a string that a template literal applies; \<open>None\<close> where it raises a
  TypeError. An array is the join of its elements with commas, \<open>null\<close> and \<open>undefined\<close>
  elements counting as empty. A parsed object has no callable property of its own: if it
  has a property \<open>toString\<close>, that one hides the inherited method, the inherited
  \<open>valueOf\<close> returns the object itself, and the conversion raises; otherwise the inherited
  \<open>toString\<close> answers \<open>[object Object]\<close>.
\<close>

fun toString :: "jsval \<Rightarrow> jstring option" and join :: "jsval list \<Rightarrow> jstring option" where
  "toString JUndefined = Some (str ''undefined'')"
| "toString JNull = Some (str ''null'')"
| "toString (JBool b) = Some (if b then str ''true'' else str ''false'')"
| "toString (JNum t) = Some t"
| "toString (JStr s) = Some s"
| "toString (JArr xs) = join xs"
| "toString (JObj kvs) =
     (if str ''toString'' \<in> set (map fst kvs) then None
      else Some (str ''[object Object]''))"
| "join [] = Some []"
| "join (x # xs) =
     (case (if x = JNull \<or> x = JUndefined then Some [] else toString x) of
        None \<Rightarrow> None
      | Some t \<Rightarrow>
          (if xs = [] then Some t
           else (case join xs of None \<Rightarrow> None | Some r \<Rightarrow> Some (t @ str '','' @ r))))"

text \<open>The object \<open>{ type, content, timestamp }\<close>: inbound messages and history entries.\<close>

record msg =
  mtype :: jsval
  content :: jsval
  timestamp :: jsval

text \<open>An entry that the component itself writes: its three fields are strings.\<close>

definition entry :: "string \<Rightarrow> jstring \<Rightarrow> jstring \<Rightarrow> msg" where
  "entry ty c t = \<lparr>mtype = JStr (str ty), content = JStr c, timestamp = JStr t\<rparr>"

text \<open>A \<open>File\<close>: its name and its size in bytes.\<close>

record jsfile =
  fname :: jstring
  fsize :: nat

text \<open>
  A \<open>Blob\<close> cut from a file: the bytes at offsets \<open>[start, end)\<close>. The data URL read
  from it, and so the base64 text in a \<open>file_chunk\<close> frame, is determined by these bytes
  of that file; the frame carries the blob in their place.
\<close>

datatype blob = Blob nat nat

fun blob_size :: "blob \<Rightarrow> nat" where
  "blob_size (Blob a b) = b - a"

text \<open>\<open>File.slice(start, end)\<close> for offsets that are not negative: both are clamped to the size.\<close>

definition slice :: "jsfile \<Rightarrow> nat \<Rightarrow> nat \<Rightarrow> blob" where
  "slice f a b =
     (let a' = min a (fsize f); b' = min b (fsize f) in Blob a' (max a' b'))"

text \<open>
  The outbound frames, by \<open>type\<close>: chat (content, timestamp), data (snapshot,
  timestamp), file_chunk (chunkIndex, totalChunks, fileName, data) and file_complete
  (fileName, totalChunks).
\<close>

datatype frame =
    ChatFrame jstring jstring
  | DataFrame jstring jstring
  | FileChunk nat nat jstring blob
  | FileComplete jstring nat

datatype effect = ReadChunk blob | Transmit nat frame | Discard nat frame

datatype ready_state = CONNECTING | OPEN | CLOSING | CLOSED

text \<open>
  A WebSocket object: its ready state, the client id in its URL, and the promise that
  \<open>connectWebSocket\<close> returned for it (whether it is settled, and whether
  \<open>onFileLoaded\<close> is suspended on it).
\<close>

record socket =
  readyState :: ready_state
  peer :: jstring
  settled :: bool
  awaited :: bool

text \<open>
  A call of \<open>sendFileChunks\<close> between two of its steps. It holds what the call keeps in
  local variables: \<open>totalChunks\<close>, the index \<open>i\<close> and, while the read is under way, the
  chunk. It waits either for the \<open>FileReader\<close> to load the chunk or fail, or for the
  100 ms delay after a chunk to pass; or it has returned.
\<close>

datatype upload = Reading nat nat blob | Delaying nat nat | Returned

datatype js_error = TypeError | InvalidStateError | ProgressEvent

record env =
  now :: jstring
  rnd :: jstring
  errText :: "js_error \<Rightarrow> jstring"
  snapshot :: jstring

text \<open>
  \<open>error.message\<close> in the handler of \<open>sendFileChunks\<close>: the text of a thrown error, and
  \<open>undefined\<close> for the event object with which a failed read rejects.
\<close>

definition message :: "env \<Rightarrow> js_error \<Rightarrow> jstring" where
  "message ev e = (case e of ProgressEvent \<Rightarrow> str ''undefined'' | _ \<Rightarrow> errText ev e)"

record state =
  isOpen :: bool
  newMessage :: jstring
  messages :: "msg list"
  hasFile :: bool
  isConnected :: bool
  parsedData :: "jstring option"
  ws :: "nat option"
  clientId :: "jstring option"
  reconnectAttempts :: nat
  maxReconnectAttempts :: nat
  reconnectDelay :: nat
  chunkSize :: nat
  currentFile :: "jsfile option"
  isSendingFile :: bool
  isChatEnabled :: bool
  isProcessingQuestion :: bool
  isUploadingFile :: bool
  isProcessingFile :: bool
  subscribed :: bool
  sockets :: "socket list"
  timers :: "nat list"
  uploads :: "upload list"
  trace :: "effect list"

text \<open>
  The values of \<open>data ()\<close> once \<open>created ()\<close> has subscribed the component to the event
  hub, with no socket, no timer, no upload and nothing sent.
\<close>

definition init :: state where
  "init = \<lparr> isOpen = False, newMessage = [], messages = [], hasFile = False,
     isConnected = False, parsedData = None, ws = None, clientId = None,
     reconnectAttempts = 0, maxReconnectAttempts = 5, reconnectDelay = 5000,
     chunkSize = 1024 * 1024, currentFile = None, isSendingFile = False,
     isChatEnabled = True, isProcessingQuestion = False, isUploadingFile = False,
     isProcessingFile = False, subscribed = True, sockets = [], timers = [],
     uploads = [], trace = [] \<rparr>"

definition push :: "msg \<Rightarrow> state \<Rightarrow> state" where
  "push m s = s\<lparr>messages := messages s @ [m]\<rparr>"

definition startsWith :: "jstring \<Rightarrow> jstring \<Rightarrow> bool" where
  "startsWith s p = (take (length p) s = p)"

subsection \<open>The message router\<close>

text \<open>
  \<open>onMessageReceived\<close>, one function for each \<open>case\<close> that does more than log. It
  returns the error it raises, if any, and the state it leaves. The \<open>switch\<close> compares
  \<open>message.type\<close> with \<open>===\<close>, so a type that is not a string reaches the default.
  In the \<open>system\<close> branch \<open>message.content.startsWith\<close> is reached
  when the content is not the greeting; on a content that is not a string it raises a
  TypeError before any field is written. In the \<open>error\<close> branch the three flags are
  cleared first and the template literal is evaluated next, as the entry is built: where
  the conversion raises, the flags stay cleared and nothing is appended.
\<close>

definition route_chat :: "msg \<Rightarrow> state \<Rightarrow> js_error option \<times> state" where
  "route_chat m s =
     (if content m = JStr (str ''Processing your question...'')
      then (None, s\<lparr>isProcessingQuestion := True\<rparr>)
      else (None, push \<lparr>mtype = JStr (str ''server''), content = content m,
                         timestamp = timestamp m\<rparr>
                    (s\<lparr>isProcessingQuestion := False\<rparr>)))"

definition route_system :: "msg \<Rightarrow> state \<Rightarrow> js_error option \<times> state" where
  "route_system m s =
     (if content m = JStr (str ''Connected to chat server'') then (None, s)
      else case content m of
        JStr c \<Rightarrow>
         (if startsWith c (str ''Welcome! Your client ID is:'') then (None, s)
          else if c = str ''Processing File'' then (None, s)
          else if startsWith c (str ''Log file processed successfully:'') then
            (None, s\<lparr>isProcessingFile := False, isUploadingFile := False,
                     isProcessingQuestion := False\<rparr>)
          else if startsWith c (str ''File saved successfully:'') then
            (None, s\<lparr>isUploadingFile := False, isProcessingFile := True\<rparr>)
          else (None, push \<lparr>mtype = JStr (str ''system''), content = content m,
                             timestamp = timestamp m\<rparr> s))
      | _ \<Rightarrow> (Some TypeError, s))"

definition route_error :: "msg \<Rightarrow> state \<Rightarrow> js_error option \<times> state" where
  "route_error m s =
     (let s1 = s\<lparr>isProcessingQuestion := False, isUploadingFile := False,
                  isProcessingFile := False\<rparr>
      in case toString (content m) of
           None \<Rightarrow> (Some TypeError, s1)
         | Some t \<Rightarrow>
             (None, push \<lparr>mtype = JStr (str ''system''),
                           content = JStr (str ''Error: '' @ t),
                           timestamp = timestamp m\<rparr> s1))"

definition onMessageReceived :: "msg \<Rightarrow> state \<Rightarrow> js_error option \<times> state" where
  "onMessageReceived m s =
    (if mtype m = JStr (str ''chat'') then route_chat m s
     else if mtype m = JStr (str ''system'') then route_system m s
     else if mtype m = JStr (str ''acknowledgment'') then (None, s)
     else if mtype m = JStr (str ''error'') then route_error m s
     else (None, s))"

subsection \<open>WebSocket objects\<close>

text \<open>
  A handle is the position of the socket in \<open>sockets\<close>; the component only ever holds
  handles of sockets it has constructed.
\<close>

definition sock_state :: "state \<Rightarrow> nat \<Rightarrow> ready_state" where
  "sock_state s h = (if h < length (sockets s) then readyState (sockets s ! h) else CLOSED)"

definition set_ready :: "nat \<Rightarrow> ready_state \<Rightarrow> state \<Rightarrow> state" where
  "set_ready h r s =
     (if h < length (sockets s)
      then s\<lparr>sockets := (sockets s)[h := (sockets s ! h)\<lparr>readyState := r\<rparr>]\<rparr>
      else s)"

text \<open>\<open>this.ws && this.ws.readyState === WebSocket.OPEN\<close>\<close>

definition ws_is_open :: "state \<Rightarrow> bool" where
  "ws_is_open s = (case ws s of None \<Rightarrow> False | Some h \<Rightarrow> sock_state s h = OPEN)"

text \<open>
  \<open>socket.send(frame)\<close> as the WebSocket interface defines it: an InvalidStateError while
  the socket is connecting, transmission while it is open, and a silent discard once it
  is closing or closed.
\<close>

definition socket_send :: "nat \<Rightarrow> frame \<Rightarrow> state \<Rightarrow> js_error + state" where
  "socket_send h fr s =
     (case sock_state s h of
        CONNECTING \<Rightarrow> Inl InvalidStateError
      | OPEN \<Rightarrow> Inr (s\<lparr>trace := trace s @ [Transmit h fr]\<rparr>)
      | CLOSING \<Rightarrow> Inr (s\<lparr>trace := trace s @ [Discard h fr]\<rparr>)
      | CLOSED \<Rightarrow> Inr (s\<lparr>trace := trace s @ [Discard h fr]\<rparr>))"

text \<open>\<open>this.ws.send(frame)\<close>: a TypeError when \<open>this.ws\<close> is null.\<close>

definition ws_send :: "frame \<Rightarrow> state \<Rightarrow> js_error + state" where
  "ws_send fr s = (case ws s of None \<Rightarrow> Inl TypeError | Some h \<Rightarrow> socket_send h fr s)"

subsection \<open>The connection manager\<close>

text \<open>
  \<open>connectWebSocket\<close> returns a promise: already resolved when it returns at its first
  test, otherwise pending on the socket it has just constructed.
\<close>

datatype promise = Resolved | Pending nat

definition connectWebSocket :: "env \<Rightarrow> state \<Rightarrow> promise \<times> state" where
  "connectWebSocket ev s =
    (if ws_is_open s then (Resolved, s)
     else
       let cid = (case clientId s of
                    None \<Rightarrow> str ''client_'' @ rnd ev
                  | Some c \<Rightarrow> if c = [] then str ''client_'' @ rnd ev else c);
           h = length (sockets s)
       in (Pending h,
           s\<lparr>clientId := Some cid,
             sockets := sockets s @
               [\<lparr>readyState = CONNECTING, peer = cid, settled = False, awaited = False\<rparr>],
             ws := Some h\<rparr>))"

text \<open>The handlers installed on each socket, without the settling of the promise.\<close>

definition onopen :: "state \<Rightarrow> state" where
  "onopen s = s\<lparr>isConnected := True, reconnectAttempts := 0\<rparr>"

definition onerror :: "env \<Rightarrow> state \<Rightarrow> state" where
  "onerror ev s =
     push (entry ''system'' (str ''Error connecting to chat server'') (now ev))
       (s\<lparr>isConnected := False\<rparr>)"

definition onclose :: "env \<Rightarrow> state \<Rightarrow> state" where
  "onclose ev s =
    (let s1 = s\<lparr>isConnected := False\<rparr> in
     if reconnectAttempts s1 < maxReconnectAttempts s1 then
       s1\<lparr>reconnectAttempts := reconnectAttempts s1 + 1,
          timers := timers s1 @ [reconnectDelay s1]\<rparr>
     else
       push (entry ''system''
               (str ''Failed to reconnect to chat server after multiple attempts'') (now ev))
         s1)"

text \<open>
  \<open>ws.onmessage\<close>: the data of the frame is parsed and handed to the router. \<open>None\<close> is
  a frame that \<open>JSON.parse\<close> rejects or parses to \<open>null\<close>; any other parsed value is read
  through its three fields. Whatever is raised is caught and logged, and the fields
  written before it stay written.
\<close>

definition onmessage :: "msg option \<Rightarrow> state \<Rightarrow> state" where
  "onmessage d s = (case d of None \<Rightarrow> s | Some m \<Rightarrow> snd (onMessageReceived m s))"

definition disconnectWebSocket :: "state \<Rightarrow> state" where
  "disconnectWebSocket s =
     (case ws s of
        None \<Rightarrow> s
      | Some h \<Rightarrow>
          (if sock_state s h = OPEN then set_ready h CLOSING s else s)
            \<lparr>ws := None, isConnected := False\<rparr>)"

subsection \<open>The chunked uploader\<close>

text \<open>
  \<open>Math.ceil(size / chunkSize)\<close> on a size and a chunk size that are natural numbers.
\<close>

definition ceil_div :: "nat \<Rightarrow> nat \<Rightarrow> nat" where
  "ceil_div a b = (if a mod b = 0 then a div b else a div b + 1)"

text \<open>
  \<open>sendFileChunks\<close> is an \<open>async\<close> method. In every round of its loop it waits twice:
  for the reader to load the chunk, and for the delay of 100 ms. While it waits, other
  handlers run, and when it goes on it reads \<open>this.currentFile\<close> and \<open>this.ws\<close> anew.
  The model therefore runs one call in steps: the call up to its first wait
  (\<open>sendFileChunks\<close>), the handler of the reader (\<open>reader_onload\<close>, \<open>reader_onerror\<close>)
  and what follows the delay (\<open>after_delay\<close>). Call \<open>u\<close> is entry \<open>u\<close> of \<open>uploads\<close>.
\<close>

definition set_upload :: "nat \<Rightarrow> upload \<Rightarrow> state \<Rightarrow> state" where
  "set_upload u x s = s\<lparr>uploads := (uploads s)[u := x]\<rparr>"

definition upload_at :: "state \<Rightarrow> nat \<Rightarrow> upload" where
  "upload_at s u = (if u < length (uploads s) then uploads s ! u else Returned)"

text \<open>The \<open>catch\<close> block followed by the \<open>finally\<close> block: the call returns.\<close>

definition upload_catch :: "env \<Rightarrow> nat \<Rightarrow> js_error \<Rightarrow> state \<Rightarrow> state" where
  "upload_catch ev u e s =
     set_upload u Returned
       ((push (entry ''error'' (str ''Error sending file: '' @ message ev e) (now ev)) s)
          \<lparr>isChatEnabled := True, isUploadingFile := False, isSendingFile := False\<rparr>)"

text \<open>After the loop: the completion frame, then \<open>finally\<close>.\<close>

definition upload_complete :: "env \<Rightarrow> nat \<Rightarrow> nat \<Rightarrow> state \<Rightarrow> state" where
  "upload_complete ev u totalChunks s =
     (case currentFile s of
        None \<Rightarrow> upload_catch ev u TypeError s
      | Some f \<Rightarrow>
          (case ws_send (FileComplete (fname f) totalChunks) s of
             Inl e \<Rightarrow> upload_catch ev u e s
           | Inr s' \<Rightarrow>
               set_upload u Returned (s'\<lparr>currentFile := None, isSendingFile := False\<rparr>)))"

text \<open>
  The test of the loop at index \<open>i\<close> and, if it holds, the round up to its first wait:
  the chunk is cut from the file that is current now, and its read is started.
\<close>

definition upload_round :: "env \<Rightarrow> nat \<Rightarrow> nat \<Rightarrow> nat \<Rightarrow> nat \<Rightarrow> state \<Rightarrow> state" where
  "upload_round ev u csize totalChunks i s =
    (if i < totalChunks then
       (case currentFile s of
          None \<Rightarrow> upload_catch ev u TypeError s
        | Some f \<Rightarrow>
           (let start = i * csize;
                endpos = min (start + csize) (fsize f);
                chunk = slice f start endpos
            in set_upload u (Reading totalChunks i chunk)
                 (s\<lparr>trace := trace s @ [ReadChunk chunk]\<rparr>)))
     else upload_complete ev u totalChunks s)"

definition sendFileChunks :: "env \<Rightarrow> state \<Rightarrow> state" where
  "sendFileChunks ev s =
    (case currentFile s of
       None \<Rightarrow> s
     | Some f \<Rightarrow>
        (let u = length (uploads s);
             s1 = s\<lparr>isSendingFile := True, isChatEnabled := False, isUploadingFile := True,
                    uploads := uploads s @ [Returned]\<rparr>;
             csize = 1024 * 1024;
             totalChunks = ceil_div (fsize f) csize
         in upload_round ev u csize totalChunks 0 s1))"

text \<open>
  \<open>reader.onload\<close> of call \<open>u\<close>: the frame is built with the name of the file that is
  current now and sent on the socket that \<open>this.ws\<close> is now; then the delay starts.
\<close>

definition reader_onload :: "env \<Rightarrow> nat \<Rightarrow> state \<Rightarrow> state" where
  "reader_onload ev u s =
    (case upload_at s u of
       Reading totalChunks i chunk \<Rightarrow>
         (case currentFile s of
            None \<Rightarrow> upload_catch ev u TypeError s
          | Some f \<Rightarrow>
              (case ws_send (FileChunk i totalChunks (fname f) chunk) s of
                 Inl e \<Rightarrow> upload_catch ev u e s
               | Inr s' \<Rightarrow> set_upload u (Delaying totalChunks i) s'))
     | _ \<Rightarrow> s)"

text \<open>\<open>reader.onerror\<close> of call \<open>u\<close>: the promise of the chunk is rejected with the event.\<close>

definition reader_onerror :: "env \<Rightarrow> nat \<Rightarrow> state \<Rightarrow> state" where
  "reader_onerror ev u s =
    (case upload_at s u of
       Reading totalChunks i chunk \<Rightarrow> upload_catch ev u ProgressEvent s
     | _ \<Rightarrow> s)"

text \<open>The delay of call \<open>u\<close> has passed: \<open>i++\<close> and the next test of the loop.\<close>

definition after_delay :: "env \<Rightarrow> nat \<Rightarrow> state \<Rightarrow> state" where
  "after_delay ev u s =
    (case upload_at s u of
       Delaying totalChunks i \<Rightarrow> upload_round ev u (1024 * 1024) totalChunks (i + 1) s
     | _ \<Rightarrow> s)"

subsection \<open>The other methods\<close>

definition sendDataToBackend :: "env \<Rightarrow> jstring \<Rightarrow> state \<Rightarrow> state" where
  "sendDataToBackend ev d s =
     (if \<not> ws_is_open s then s
      else (case ws_send (DataFrame d (now ev)) s of Inl e \<Rightarrow> s | Inr s' \<Rightarrow> s'))"

text \<open>
  \<open>updateParsedData\<close>: the snapshot built from the telemetry store is taken from the
  environment, as serialised.
\<close>

definition updateParsedData :: "env \<Rightarrow> state \<Rightarrow> state" where
  "updateParsedData ev s =
     sendDataToBackend ev (snapshot ev) (s\<lparr>parsedData := Some (snapshot ev)\<rparr>)"

text \<open>
  The part of \<open>onFileLoaded\<close> after its \<open>await\<close>, when the promise is resolved, up to the
  first wait of the uploader.
\<close>

definition onFileLoaded_resume :: "env \<Rightarrow> state \<Rightarrow> state" where
  "onFileLoaded_resume ev s =
     (if isConnected s \<and> currentFile s \<noteq> None then sendFileChunks ev s else s)"

text \<open>Its \<open>catch\<close> block, when the promise is rejected.\<close>

definition onFileLoaded_catch :: "env \<Rightarrow> state \<Rightarrow> state" where
  "onFileLoaded_catch ev s =
     push (entry ''system'' (str ''Failed to establish WebSocket connection'') (now ev)) s"

definition set_awaited :: "nat \<Rightarrow> state \<Rightarrow> state" where
  "set_awaited h s =
     (if h < length (sockets s)
      then s\<lparr>sockets := (sockets s)[h := (sockets s ! h)\<lparr>awaited := True\<rparr>]\<rparr>
      else s)"

definition onFileLoaded :: "env \<Rightarrow> state \<Rightarrow> state" where
  "onFileLoaded ev s =
     (case connectWebSocket ev (updateParsedData ev (s\<lparr>hasFile := True\<rparr>)) of
        (Resolved, s') \<Rightarrow> onFileLoaded_resume ev s'
      | (Pending h, s') \<Rightarrow> set_awaited h s')"

text \<open>
  The code units that \<open>String.prototype.trim\<close> strips: the white space and the line
  terminators of ECMAScript, that is TAB, LF, VT, FF, CR, SP, NBSP, U+1680, U+2000 to
  U+200A, LS, PS, U+202F, U+205F, U+3000 and U+FEFF. \<open>newMessage.trim()\<close> is empty when
  every code unit is one of them.
\<close>

definition isspace :: "nat \<Rightarrow> bool" where
  "isspace c = (c = 0x0009 \<or> c = 0x000A \<or> c = 0x000B \<or> c = 0x000C \<or> c = 0x000D
                \<or> c = 0x0020 \<or> c = 0x00A0 \<or> c = 0x1680
                \<or> (0x2000 \<le> c \<and> c \<le> 0x200A)
                \<or> c = 0x2028 \<or> c = 0x2029 \<or> c = 0x202F \<or> c = 0x205F
                \<or> c = 0x3000 \<or> c = 0xFEFF)"

definition blank :: "jstring \<Rightarrow> bool" where
  "blank s = list_all isspace s"

definition sendMessage :: "env \<Rightarrow> state \<Rightarrow> state" where
  "sendMessage ev s =
    (if blank (newMessage s) \<or> \<not> isConnected s \<or> ws s = None then s
     else
       let s1 = push (entry ''user'' (newMessage s) (now ev))
                  (s\<lparr>isProcessingQuestion := False\<rparr>)
       in case ws_send (ChatFrame (newMessage s) (now ev)) s1 of
            Inr s2 \<Rightarrow> s2\<lparr>newMessage := []\<rparr>
          | Inl e \<Rightarrow>
              push (entry ''system'' (str ''Failed to send message. Please try again.'')
                      (now ev)) s1)"

definition setCurrentFile :: "jsfile option \<Rightarrow> state \<Rightarrow> state" where
  "setCurrentFile f s = s\<lparr>currentFile := f\<rparr>"

text \<open>\<open>onMessage\<close>, a method that no event is bound to.\<close>

definition onMessage :: "msg option \<Rightarrow> state \<Rightarrow> state" where
  "onMessage d s =
     (case d of
        None \<Rightarrow> s
      | Some m \<Rightarrow>
          if mtype m = JStr (str ''error'') then push m (s\<lparr>isChatEnabled := False\<rparr>)
          else push m (s\<lparr>isChatEnabled := True\<rparr>))"

definition toggleChat :: "state \<Rightarrow> state" where
  "toggleChat s = s\<lparr>isOpen := \<not> isOpen s\<rparr>"

subsection \<open>Events\<close>

text \<open>
  What can call into the component: the event hub and the user interface while the
  component is alive (from \<open>created\<close> to \<open>beforeDestroy\<close>, which unsubscribes and
  then disconnects), each socket it has constructed, each timeout it has set, and the
  reader and the delay of each upload that waits. The handlers of a socket are closures
  over the component, so they run whether or not \<open>this.ws\<close> still refers to that socket,
  and whether or not the component is still subscribed; so do the callbacks of timeouts
  and readers. A socket opens while it is connecting, reports errors and closes until it
  is closed, and delivers messages once it is open.

  The hub calls the router directly: what the router raises goes to the emitter, and the
  state is left as in \<open>ws.onmessage\<close>. The continuation of \<open>onFileLoaded\<close> runs in the
  turn of the \<open>open\<close> or \<open>error\<close> event that settles the promise it waits for.
\<close>

datatype event =
    FileLoaded
  | FileReady "jsfile option"
  | HubMessage msg
  | Typed jstring
  | SendClicked
  | Toggle
  | Destroy
  | SockOpen nat
  | SockError nat
  | SockClose nat
  | SockMessage nat "msg option"
  | TimerFire
  | ReadDone nat bool
  | DelayDone nat

fun is_reading :: "upload \<Rightarrow> bool" where
  "is_reading (Reading n i b) = True"
| "is_reading x = False"

fun is_delaying :: "upload \<Rightarrow> bool" where
  "is_delaying (Delaying n i) = True"
| "is_delaying x = False"

fun enabled :: "event \<Rightarrow> state \<Rightarrow> bool" where
  "enabled (SockOpen h) s = (sock_state s h = CONNECTING)"
| "enabled (SockError h) s = (h < length (sockets s) \<and> sock_state s h \<noteq> CLOSED)"
| "enabled (SockClose h) s = (h < length (sockets s) \<and> sock_state s h \<noteq> CLOSED)"
| "enabled (SockMessage h d) s = (sock_state s h = OPEN \<or> sock_state s h = CLOSING)"
| "enabled TimerFire s = (timers s \<noteq> [])"
| "enabled (ReadDone u ok) s = is_reading (upload_at s u)"
| "enabled (DelayDone u) s = is_delaying (upload_at s u)"
| "enabled e s = subscribed s"

text \<open>
  Settling the promise of socket \<open>h\<close>: only the first \<open>resolve\<close> or \<open>reject\<close> counts. The
  result tells whether \<open>onFileLoaded\<close> was suspended on it and continues now.
\<close>

definition settle :: "nat \<Rightarrow> state \<Rightarrow> bool \<times> state" where
  "settle h s =
     (if h < length (sockets s) \<and> \<not> settled (sockets s ! h)
      then (awaited (sockets s ! h),
            s\<lparr>sockets := (sockets s)[h := (sockets s ! h)\<lparr>settled := True\<rparr>]\<rparr>)
      else (False, s))"

fun fire :: "env \<Rightarrow> event \<Rightarrow> state \<Rightarrow> state" where
  "fire ev FileLoaded s = onFileLoaded ev s"
| "fire ev (FileReady f) s = setCurrentFile f s"
| "fire ev (HubMessage m) s = onmessage (Some m) s"
| "fire ev (Typed t) s = s\<lparr>newMessage := t\<rparr>"
| "fire ev SendClicked s = sendMessage ev s"
| "fire ev Toggle s = toggleChat s"
| "fire ev Destroy s = disconnectWebSocket (s\<lparr>subscribed := False\<rparr>)"
| "fire ev (SockOpen h) s =
     (case settle h (onopen (set_ready h OPEN s)) of
        (True, s') \<Rightarrow> onFileLoaded_resume ev s'
      | (False, s') \<Rightarrow> s')"
| "fire ev (SockError h) s =
     (case settle h (onerror ev s) of
        (True, s') \<Rightarrow> onFileLoaded_catch ev s'
      | (False, s') \<Rightarrow> s')"
| "fire ev (SockClose h) s = onclose ev (set_ready h CLOSED s)"
| "fire ev (SockMessage h d) s = onmessage d s"
| "fire ev TimerFire s = snd (connectWebSocket ev (s\<lparr>timers := tl (timers s)\<rparr>))"
| "fire ev (ReadDone u ok) s = (if ok then reader_onload ev u s else reader_onerror ev u s)"
| "fire ev (DelayDone u) s = after_delay ev u s"

fun run :: "env \<Rightarrow> event list \<Rightarrow> state \<Rightarrow> state" where
  "run ev [] s = s"
| "run ev (e # es) s = run ev es (fire ev e s)"

inductive reachable :: "state \<Rightarrow> bool" where
  start: "reachable init"
| step: "reachable s \<Longrightarrow> enabled e s \<Longrightarrow> reachable (fire ev e s)"

subsection \<open>Auxiliary definitions\<close>

text \<open>The counters of the retry policy.\<close>

definition counters :: "state \<Rightarrow> nat \<times> nat" where
  "counters s = (reconnectAttempts s, maxReconnectAttempts s)"

text \<open>Whether each event of a list is enabled when its turn comes.\<close>

fun all_enabled :: "env \<Rightarrow> event list \<Rightarrow> state \<Rightarrow> bool" where
  "all_enabled ev [] s = True"
| "all_enabled ev (e # es) s = (enabled e s \<and> all_enabled ev es (fire ev e s))"

text \<open>The frames that were transmitted, in order.\<close>

fun transmitted :: "effect list \<Rightarrow> frame list" where
  "transmitted [] = []"
| "transmitted (Transmit h fr # es) = fr # transmitted es"
| "transmitted (e # es) = transmitted es"

text \<open>What round \<open>j\<close> of the loop adds to the log when the read and the send succeed.\<close>

definition round_effects :: "nat \<Rightarrow> jsfile \<Rightarrow> nat \<Rightarrow> nat \<Rightarrow> nat \<Rightarrow> effect list" where
  "round_effects h f c n j =
     [ReadChunk (Blob (j * c) (min ((j + 1) * c) (fsize f))),
      Transmit h (FileChunk j n (fname f) (Blob (j * c) (min ((j + 1) * c) (fsize f))))]"

text \<open>
  The events of call \<open>u\<close> when nothing else happens and every read succeeds: \<open>n\<close> times
  the load of a chunk and the end of the delay.
\<close>

definition upload_events :: "nat \<Rightarrow> nat \<Rightarrow> event list" where
  "upload_events u n = concat (replicate n [ReadDone u True, DelayDone u])"

text \<open>The three processing flags.\<close>

definition flags :: "state \<Rightarrow> bool \<times> bool \<times> bool" where
  "flags s = (isProcessingQuestion s, isUploadingFile s, isProcessingFile s)"

text \<open>A concrete environment, a file of 2.5 MiB, and a session with one open socket.\<close>

definition env0 :: env where
  "env0 = \<lparr> now = str ''2025-06-01T12:00:00.000Z'', rnd = str ''k3j9x0q1z'',
            errText = (\<lambda>e. str ''send failed''), snapshot = str ''{}'' \<rparr>"

definition log25 :: jsfile where
  "log25 = \<lparr> fname = str ''flight.bin'', fsize = 2621440 \<rparr>"

definition connected0 :: state where
  "connected0 = init\<lparr> isConnected := True, ws := Some 0,
      clientId := Some (str ''client_k3j9x0q1z''),
      sockets := [\<lparr>readyState = OPEN, peer = str ''client_k3j9x0q1z'', settled = True,
                  awaited = False\<rparr>] \<rparr>"

text \<open>A session that has a file and has never connected.\<close>

definition idle0 :: state where
  "idle0 = init\<lparr>currentFile := Some log25\<rparr>"


text \<open>
  A second file, of 100 bytes, and the upload of the first during which the second
  becomes the current file: after the first chunk has been sent and before the delay has
  passed.
\<close>

definition other0 :: jsfile where
  "other0 = \<lparr> fname = str ''other.bin'', fsize = 100 \<rparr>"

definition switch_events :: "event list" where
  "switch_events =
     [ReadDone 0 True, FileReady (Some other0), DelayDone 0,
      ReadDone 0 True, DelayDone 0, ReadDone 0 True, DelayDone 0]"

text \<open>
  The file is loaded twice before the first socket has opened; then the first socket
  opens.
\<close>

definition double_load :: "event list" where
  "double_load = [FileLoaded, FileLoaded, SockOpen 0]"

text \<open>
  The history entry that reports the end of the retries, and the number of such entries.
\<close>

definition terminal_entry :: "msg \<Rightarrow> bool" where
  "terminal_entry m =
     (mtype m = JStr (str ''system'')
      \<and> content m =
          JStr (str ''Failed to reconnect to chat server after multiple attempts''))"

definition terminal_entries :: "state \<Rightarrow> nat" where
  "terminal_entries s = length (filter terminal_entry (messages s))"

text \<open>Kinds of events, and how many of a kind a list holds.\<close>

fun is_close :: "event \<Rightarrow> bool" where
  "is_close (SockClose h) = True"
| "is_close e = False"

fun is_timer :: "event \<Rightarrow> bool" where
  "is_timer TimerFire = True"
| "is_timer e = False"

fun failure_event :: "event \<Rightarrow> bool" where
  "failure_event (SockClose h) = True"
| "failure_event (SockError h) = True"
| "failure_event TimerFire = True"
| "failure_event e = False"

definition closes :: "event list \<Rightarrow> nat" where
  "closes es = length (filter is_close es)"

definition attempts_made :: "event list \<Rightarrow> nat" where
  "attempts_made es = length (filter is_timer es)"

text \<open>
  A failed reconnect: the timer fires, the new socket reports an error and closes. Five
  closes in a row from a connected session, and six.
\<close>

definition retry_round :: "nat \<Rightarrow> event list" where
  "retry_round k = [TimerFire, SockError k, SockClose k]"

definition five_closes :: "event list" where
  "five_closes = SockClose 0 # concat (map retry_round [1, 2, 3, 4])"

definition six_closes :: "event list" where
  "six_closes = five_closes @ retry_round 5"

text \<open>
  The component is destroyed after the connection was lost, and while it is open; in
  both the server then accepts the next connection.
\<close>

definition close_then_disconnect :: "event list" where
  "close_then_disconnect = [SockClose 0, Destroy, TimerFire, SockOpen 1]"

definition disconnect_then_close :: "event list" where
  "disconnect_then_close = [Destroy, SockClose 0, TimerFire, SockOpen 1]"

text \<open>
  A state without the fields that the uploader writes, and without those that the router
  writes.
\<close>

definition but_upload :: "state \<Rightarrow> state" where
  "but_upload s = s\<lparr>messages := [], trace := [], currentFile := None,
      isSendingFile := False, isChatEnabled := False, isUploadingFile := False,
      uploads := []\<rparr>"

definition but_router :: "state \<Rightarrow> state" where
  "but_router s = s\<lparr>messages := [], isProcessingQuestion := False,
      isUploadingFile := False, isProcessingFile := False\<rparr>"

section \<open>Properties\<close>

subsection \<open>What each operation writes\<close>

text \<open>
  Sending writes the log only. The steps of the uploader write the log, the history, the
  current file, three flags and their own entry of \<open>uploads\<close>; the router writes the
  history and the three processing flags.
\<close>

lemma ws_send_frame: "ws_send fr s = Inr s' \<Longrightarrow> \<exists>tr. s' = s\<lparr>trace := tr\<rparr>"
  by (auto simp: ws_send_def socket_send_def split: option.splits ready_state.splits)

lemma ws_send_but_upload: "ws_send fr s = Inr s' \<Longrightarrow> but_upload s' = but_upload s"
  by (drule ws_send_frame) (auto simp: but_upload_def)

lemma upload_catch_but_upload: "but_upload (upload_catch ev u e s) = but_upload s"
  by (simp add: upload_catch_def set_upload_def push_def but_upload_def)

lemma upload_complete_but_upload: "but_upload (upload_complete ev u n s) = but_upload s"
proof (cases "currentFile s")
  case None
  then show ?thesis by (simp add: upload_complete_def upload_catch_but_upload)
next
  case (Some f)
  show ?thesis
  proof (cases "ws_send (FileComplete (fname f) n) s")
    case (Inl e)
    with Some show ?thesis by (simp add: upload_complete_def upload_catch_but_upload)
  next
    case (Inr s')
    from ws_send_but_upload [OF Inr] have "but_upload s' = but_upload s" .
    moreover have "but_upload (set_upload u Returned (s'\<lparr>currentFile := None,
        isSendingFile := False\<rparr>)) = but_upload s'"
      by (simp add: set_upload_def but_upload_def)
    ultimately show ?thesis using Some Inr by (simp add: upload_complete_def)
  qed
qed

lemma upload_round_but_upload: "but_upload (upload_round ev u cs n i s) = but_upload s"
proof (cases "i < n")
  case False
  then show ?thesis by (simp add: upload_round_def upload_complete_but_upload)
next
  case True
  show ?thesis
  proof (cases "currentFile s")
    case None
    with True show ?thesis by (simp add: upload_round_def upload_catch_but_upload)
  next
    case (Some f)
    with True show ?thesis
      by (simp add: upload_round_def Let_def set_upload_def but_upload_def)
  qed
qed

lemma sendFileChunks_but_upload: "but_upload (sendFileChunks ev s) = but_upload s"
proof (cases "currentFile s")
  case None
  then show ?thesis by (simp add: sendFileChunks_def)
next
  case (Some f)
  have "but_upload (s\<lparr>isSendingFile := True, isChatEnabled := False,
      isUploadingFile := True, uploads := uploads s @ [Returned]\<rparr>) = but_upload s"
    by (simp add: but_upload_def)
  with Some show ?thesis
    by (simp add: sendFileChunks_def Let_def upload_round_but_upload)
qed

lemma reader_onload_but_upload: "but_upload (reader_onload ev u s) = but_upload s"
proof (cases "upload_at s u")
  case (Reading n i chunk)
  show ?thesis
  proof (cases "currentFile s")
    case None
    with Reading show ?thesis by (simp add: reader_onload_def upload_catch_but_upload)
  next
    case (Some f)
    show ?thesis
    proof (cases "ws_send (FileChunk i n (fname f) chunk) s")
      case (Inl e)
      with Reading Some show ?thesis
        by (simp add: reader_onload_def upload_catch_but_upload)
    next
      case (Inr s')
      from ws_send_but_upload [OF Inr] have "but_upload s' = but_upload s" .
      moreover have "but_upload (set_upload u (Delaying n i) s') = but_upload s'"
        by (simp add: set_upload_def but_upload_def)
      ultimately show ?thesis using Reading Some Inr by (simp add: reader_onload_def)
    qed
  qed
qed (simp_all add: reader_onload_def)

lemma reader_onerror_but_upload: "but_upload (reader_onerror ev u s) = but_upload s"
  by (cases "upload_at s u") (simp_all add: reader_onerror_def upload_catch_but_upload)

lemma after_delay_but_upload: "but_upload (after_delay ev u s) = but_upload s"
  by (cases "upload_at s u") (simp_all add: after_delay_def upload_round_but_upload)

lemma onFileLoaded_resume_but_upload: "but_upload (onFileLoaded_resume ev s) = but_upload s"
  by (simp add: onFileLoaded_resume_def sendFileChunks_but_upload)

lemma route_chat_but_router: "but_router (snd (route_chat m s)) = but_router s"
  by (simp add: route_chat_def push_def but_router_def)

lemma route_system_but_router: "but_router (snd (route_system m s)) = but_router s"
  by (cases "content m") (simp_all add: route_system_def push_def but_router_def)

lemma route_error_but_router: "but_router (snd (route_error m s)) = but_router s"
  by (cases "toString (content m)") (simp_all add: route_error_def push_def but_router_def)

lemma onMessageReceived_but_router: "but_router (snd (onMessageReceived m s)) = but_router s"
  by (simp add: onMessageReceived_def route_chat_but_router route_system_but_router
        route_error_but_router)

lemma onmessage_but_router: "but_router (onmessage d s) = but_router s"
  by (cases d) (simp_all add: onmessage_def onMessageReceived_but_router)

lemma sendMessage_frame:
  "\<exists>ms tr nm a. sendMessage ev s =
      s\<lparr>messages := ms, trace := tr, newMessage := nm, isProcessingQuestion := a\<rparr>"
  by (cases s)
    (auto simp: sendMessage_def push_def Let_def ws_send_def socket_send_def
          split: if_splits sum.splits option.splits ready_state.splits)

lemma connectWebSocket_frame:
  "\<exists>cid sk w. snd (connectWebSocket ev s) = s\<lparr>clientId := cid, sockets := sk, ws := w\<rparr>"
  by (cases s) (auto simp: connectWebSocket_def Let_def)

lemma updateParsedData_frame:
  "\<exists>pd tr. updateParsedData ev s = s\<lparr>parsedData := pd, trace := tr\<rparr>"
  by (cases s)
    (auto simp: updateParsedData_def sendDataToBackend_def ws_send_def socket_send_def
            ws_is_open_def sock_state_def
          split: if_splits sum.splits option.splits ready_state.splits)

subsection \<open>The retry counter\<close>

lemma counters_but_upload: "but_upload s' = but_upload s \<Longrightarrow> counters s' = counters s"
proof -
  assume e: "but_upload s' = but_upload s"
  have "counters s' = counters (but_upload s')" by (simp add: counters_def but_upload_def)
  also have "\<dots> = counters (but_upload s)" by (simp add: e)
  also have "\<dots> = counters s" by (simp add: counters_def but_upload_def)
  finally show ?thesis .
qed

lemma counters_but_router: "but_router s' = but_router s \<Longrightarrow> counters s' = counters s"
proof -
  assume e: "but_router s' = but_router s"
  have "counters s' = counters (but_router s')" by (simp add: counters_def but_router_def)
  also have "\<dots> = counters (but_router s)" by (simp add: e)
  also have "\<dots> = counters s" by (simp add: counters_def but_router_def)
  finally show ?thesis .
qed

lemma counters_resume: "counters (onFileLoaded_resume ev s) = counters s"
  by (rule counters_but_upload) (rule onFileLoaded_resume_but_upload)

lemma counters_connect: "counters (snd (connectWebSocket ev s)) = counters s"
proof -
  from connectWebSocket_frame [of ev s] obtain cid sk w where
    "snd (connectWebSocket ev s) = s\<lparr>clientId := cid, sockets := sk, ws := w\<rparr>" by blast
  then show ?thesis by (simp add: counters_def)
qed

lemma counters_updateParsedData: "counters (updateParsedData ev s) = counters s"
proof -
  from updateParsedData_frame [of ev s] obtain pd tr where
    "updateParsedData ev s = s\<lparr>parsedData := pd, trace := tr\<rparr>" by blast
  then show ?thesis by (simp add: counters_def)
qed

lemma counters_set_awaited: "counters (set_awaited h s) = counters s"
  by (simp add: set_awaited_def counters_def)

lemma counters_set_ready: "counters (set_ready h r s) = counters s"
  by (simp add: set_ready_def counters_def)

lemma counters_settle: "counters (snd (settle h s)) = counters s"
  by (simp add: settle_def counters_def)

lemma counters_onFileLoaded: "counters (onFileLoaded ev s) = counters s"
proof -
  define s1 where "s1 = updateParsedData ev (s\<lparr>hasFile := True\<rparr>)"
  have c1: "counters s1 = counters s"
    unfolding s1_def by (simp add: counters_updateParsedData) (simp add: counters_def)
  obtain p s2 where cw: "connectWebSocket ev s1 = (p, s2)"
    by (cases "connectWebSocket ev s1")
  with counters_connect [of ev s1] c1 have c2: "counters s2 = counters s" by simp
  show ?thesis
  proof (cases p)
    case Resolved
    with cw have "onFileLoaded ev s = onFileLoaded_resume ev s2"
      by (simp add: onFileLoaded_def s1_def)
    with c2 show ?thesis by (simp add: counters_resume)
  next
    case (Pending h)
    with cw have "onFileLoaded ev s = set_awaited h s2"
      by (simp add: onFileLoaded_def s1_def)
    with c2 show ?thesis by (simp add: counters_set_awaited)
  qed
qed

lemma counters_onmessage: "counters (onmessage d s) = counters s"
  by (rule counters_but_router) (rule onmessage_but_router)

lemma counters_sendMessage: "counters (sendMessage ev s) = counters s"
proof -
  from sendMessage_frame [of ev s] obtain ms tr nm a where
    "sendMessage ev s =
      s\<lparr>messages := ms, trace := tr, newMessage := nm, isProcessingQuestion := a\<rparr>" by blast
  then show ?thesis by (simp add: counters_def)
qed

lemma counters_disconnect: "counters (disconnectWebSocket s) = counters s"
  by (simp add: disconnectWebSocket_def counters_def set_ready_def split: option.splits)

lemma counters_onerror: "counters (onerror ev s) = counters s"
  by (simp add: onerror_def push_def counters_def)

lemma counters_onopen: "counters (onopen s) = (0, maxReconnectAttempts s)"
  by (simp add: onopen_def counters_def)

lemma counters_onclose:
  "counters (onclose ev s) =
     (if reconnectAttempts s < maxReconnectAttempts s then reconnectAttempts s + 1
      else reconnectAttempts s, maxReconnectAttempts s)"
  by (simp add: onclose_def push_def counters_def Let_def)

lemma counters_fire:
  "counters (fire ev e s) =
    (case e of
       SockOpen h \<Rightarrow> (0, maxReconnectAttempts s)
     | SockClose h \<Rightarrow>
         (if reconnectAttempts s < maxReconnectAttempts s then reconnectAttempts s + 1
          else reconnectAttempts s, maxReconnectAttempts s)
     | _ \<Rightarrow> counters s)"
proof (cases e)
  case FileLoaded
  then show ?thesis by (simp add: counters_onFileLoaded)
next
  case (FileReady f)
  then show ?thesis by (simp add: setCurrentFile_def counters_def)
next
  case (HubMessage m)
  then show ?thesis by (simp add: counters_onmessage)
next
  case (Typed t)
  then show ?thesis by (simp add: counters_def)
next
  case SendClicked
  then show ?thesis by (simp add: counters_sendMessage)
next
  case Toggle
  then show ?thesis by (simp add: toggleChat_def counters_def)
next
  case Destroy
  then show ?thesis by (simp add: counters_disconnect) (simp add: counters_def)
next
  case (SockOpen h)
  obtain k s' where st: "settle h (onopen (set_ready h OPEN s)) = (k, s')"
    by (cases "settle h (onopen (set_ready h OPEN s))")
  have "maxReconnectAttempts (set_ready h OPEN s) = maxReconnectAttempts s"
    by (simp add: set_ready_def)
  with st counters_settle [of h "onopen (set_ready h OPEN s)"]
  have "counters s' = (0, maxReconnectAttempts s)"
    by (simp add: counters_onopen)
  with st SockOpen show ?thesis by (cases k) (simp_all add: counters_resume)
next
  case (SockError h)
  obtain k s' where st: "settle h (onerror ev s) = (k, s')"
    by (cases "settle h (onerror ev s)")
  with counters_settle [of h "onerror ev s"] have "counters s' = counters s"
    by (simp add: counters_onerror)
  with st SockError show ?thesis
    by (cases k) (simp_all add: onFileLoaded_catch_def push_def counters_def)
next
  case (SockClose h)
  have "reconnectAttempts (set_ready h CLOSED s) = reconnectAttempts s"
    and "maxReconnectAttempts (set_ready h CLOSED s) = maxReconnectAttempts s"
    by (simp_all add: set_ready_def)
  with SockClose show ?thesis by (simp add: counters_onclose)
next
  case (SockMessage h d)
  then show ?thesis by (simp add: counters_onmessage)
next
  case TimerFire
  then show ?thesis by (simp add: counters_connect) (simp add: counters_def)
next
  case (ReadDone u ok)
  have "counters (reader_onload ev u s) = counters s"
    by (rule counters_but_upload) (rule reader_onload_but_upload)
  moreover have "counters (reader_onerror ev u s) = counters s"
    by (rule counters_but_upload) (rule reader_onerror_but_upload)
  ultimately show ?thesis using ReadDone by simp
next
  case (DelayDone u)
  have "counters (after_delay ev u s) = counters s"
    by (rule counters_but_upload) (rule after_delay_but_upload)
  with DelayDone show ?thesis by simp
qed

text \<open>The invariant of the retry policy, by induction on the events that led to the state.\<close>

lemma reachable_max: "reachable s \<Longrightarrow> maxReconnectAttempts s = 5 \<and> reconnectAttempts s \<le> 5"
proof (induction rule: reachable.induct)
  case start
  then show ?case by (simp add: init_def)
next
  case (step s e ev)
  from counters_fire [of ev e s] step.IH show ?case
    by (cases e) (auto simp: counters_def split: if_splits)
qed

lemma isConnected_open: "isConnected (fire ev (SockOpen h) s)"
proof -
  obtain k s' where st: "settle h (onopen (set_ready h OPEN s)) = (k, s')"
    by (cases "settle h (onopen (set_ready h OPEN s))")
  then have c: "isConnected s'"
    by (auto simp: settle_def onopen_def set_ready_def split: if_splits)
  have "isConnected (onFileLoaded_resume ev s') = isConnected (but_upload (onFileLoaded_resume ev s'))"
    by (simp add: but_upload_def)
  also have "\<dots> = isConnected (but_upload s')" by (simp add: onFileLoaded_resume_but_upload)
  also have "\<dots> = isConnected s'" by (simp add: but_upload_def)
  finally have "isConnected (onFileLoaded_resume ev s')" using c by simp
  with st c show ?thesis by (cases k) simp_all
qed

lemma reachable_run: "reachable s \<Longrightarrow> all_enabled ev es s \<Longrightarrow> reachable (run ev es s)"
  by (induction es arbitrary: s) (auto intro: reachable.step)

text \<open>
  C2. In every state that the component can reach from its initial state,
  \<open>maxReconnectAttempts\<close> is 5 and \<open>reconnectAttempts\<close> does not exceed it. The \<open>open\<close>
  event of any socket leaves the counter at 0 and \<open>isConnected\<close> true. A \<open>close\<close> event
  never lowers the counter, and neither does any event other than \<open>open\<close>.
\<close>

theorem reconnectAttempts_bounded:
  assumes "reachable s"
  shows "maxReconnectAttempts s = 5 \<and> reconnectAttempts s \<le> maxReconnectAttempts s
    \<and> reconnectAttempts (fire ev (SockOpen h) s) = 0
    \<and> isConnected (fire ev (SockOpen h) s)
    \<and> reconnectAttempts s \<le> reconnectAttempts (fire ev (SockClose h) s)
    \<and> (\<forall>e. (\<forall>k. e \<noteq> SockOpen k) \<longrightarrow> reconnectAttempts s \<le> reconnectAttempts (fire ev e s))"
proof -
  from reachable_max [OF assms] have a: "maxReconnectAttempts s = 5"
    and b: "reconnectAttempts s \<le> maxReconnectAttempts s" by simp_all
  have c: "reconnectAttempts (fire ev (SockOpen h) s) = 0"
    using counters_fire [of ev "SockOpen h" s] by (simp add: counters_def)
  have d: "reconnectAttempts s \<le> reconnectAttempts (fire ev e s)" if "\<forall>k. e \<noteq> SockOpen k" for e
    using counters_fire [of ev e s] that by (cases e) (auto simp: counters_def split: if_splits)
  from d [of "SockClose h"] have e: "reconnectAttempts s \<le> reconnectAttempts (fire ev (SockClose h) s)"
    by simp
  from a b c d e isConnected_open [of ev h s] show ?thesis by blast
qed

text \<open>The definitions that the evaluation of a concrete scenario unfolds.\<close>

lemmas run_defs = init_def connected0_def env0_def log25_def entry_def
  sendFileChunks_def upload_round_def upload_complete_def upload_catch_def set_upload_def
  upload_at_def reader_onload_def reader_onerror_def after_delay_def
  ws_send_def socket_send_def sock_state_def
  slice_def ceil_div_def push_def Let_def
  onFileLoaded_def onFileLoaded_resume_def onFileLoaded_catch_def updateParsedData_def
  sendDataToBackend_def connectWebSocket_def ws_is_open_def set_awaited_def setCurrentFile_def
  settle_def onopen_def onclose_def onerror_def set_ready_def disconnectWebSocket_def

theorem reconnectAttempts_bounded_witness:
  "reachable (run env0 [FileReady (Some log25), FileLoaded, SockOpen 0, SockClose 0] init)
   \<and> maxReconnectAttempts
        (run env0 [FileReady (Some log25), FileLoaded, SockOpen 0, SockClose 0] init) = 5
   \<and> reconnectAttempts
        (run env0 [FileReady (Some log25), FileLoaded, SockOpen 0, SockClose 0] init) = 1
   \<and> reconnectAttempts (fire env0 (SockOpen 1)
        (run env0 [FileReady (Some log25), FileLoaded, SockOpen 0, SockClose 0] init)) = 0
   \<and> isConnected (fire env0 (SockOpen 1)
        (run env0 [FileReady (Some log25), FileLoaded, SockOpen 0, SockClose 0] init))
   \<and> 1 \<le> reconnectAttempts (fire env0 (SockClose 1)
        (run env0 [FileReady (Some log25), FileLoaded, SockOpen 0, SockClose 0] init))"
proof -
  define w where "w = run env0 [FileReady (Some log25), FileLoaded, SockOpen 0, SockClose 0] init"
  have en: "all_enabled env0 [FileReady (Some log25), FileLoaded, SockOpen 0, SockClose 0] init"
    by (simp add: run_defs)
  have r: "reachable w"
    unfolding w_def by (rule reachable_run [OF reachable.start en])
  have one: "reconnectAttempts w = 1"
    unfolding w_def by (simp add: run_defs)
  from reconnectAttempts_bounded [OF r, of env0 1] r one show ?thesis
    unfolding w_def by simp
qed

subsection \<open>The chunked upload\<close>

text \<open>\<open>ceil_div\<close> is the ceiling of the quotient, and every index below it starts inside the file.\<close>

lemma ceil_div_ceiling: "0 < b \<Longrightarrow> int (ceil_div a b) = \<lceil>real a / real b\<rceil>"
proof -
  assume b: "0 < b"
  have "\<lceil>real a / real b\<rceil> = \<lceil>real_of_int (int a) / real_of_int (int b)\<rceil>" by simp
  also have "\<dots> = - (- int a div int b)" by (rule ceiling_divide_eq_div)
  finally have e: "\<lceil>real a / real b\<rceil> = - (- int a div int b)" .
  from b have "int b \<noteq> 0" by simp
  then have "- int a div int b =
      (if int a mod int b = 0 then - (int a div int b) else - (int a div int b) - 1)"
    by (rule zdiv_zminus1_eq_if)
  moreover have "int a mod int b = int (a mod b)" by (simp add: zmod_int)
  moreover have "int a div int b = int (a div b)" by (simp add: zdiv_int)
  ultimately have "- (- int a div int b) = int (ceil_div a b)"
    by (simp add: ceil_div_def)
  with e show ?thesis by simp
qed

lemma ceil_div_lt: "0 < b \<Longrightarrow> i < ceil_div a b \<Longrightarrow> i * b < a"
proof -
  assume b: "0 < b" and i: "i < ceil_div a b"
  have a: "a = a div b * b + a mod b" by simp
  show ?thesis
  proof (cases "a mod b = 0")
    case True
    with i have "i < a div b" by (simp add: ceil_div_def)
    then have "Suc i * b \<le> a div b * b" by (intro mult_le_mono1) simp
    moreover have "a div b * b \<le> a" by simp
    ultimately have "Suc i * b \<le> a" by (rule le_trans)
    with b show ?thesis by simp
  next
    case False
    with i have "i \<le> a div b" by (simp add: ceil_div_def)
    then have "i * b \<le> a div b * b" by (rule mult_le_mono1)
    with a False show ?thesis by linarith
  qed
qed

lemma ceil_div_pos: "0 < b \<Longrightarrow> 0 < a \<Longrightarrow> 0 < ceil_div a b"
proof (cases "a mod b = 0")
  case True
  assume "0 < b" and "0 < a"
  from True have "b dvd a" by (simp add: dvd_eq_mod_eq_0)
  with \<open>0 < a\<close> have "b \<le> a" by (simp add: dvd_imp_le)
  with \<open>0 < b\<close> have "0 < a div b" by (simp add: div_greater_zero_iff)
  with True show ?thesis by (simp add: ceil_div_def)
next
  case False
  then show ?thesis by (simp add: ceil_div_def)
qed

lemma slice_inside:
  assumes "a < fsize f"
  shows "slice f a (min (a + c) (fsize f)) = Blob a (min (a + c) (fsize f))"
proof -
  from assms have 1: "min a (fsize f) = a" by simp
  have 2: "min (min (a + c) (fsize f)) (fsize f) = min (a + c) (fsize f)" by simp
  from assms have 3: "max a (min (a + c) (fsize f)) = min (a + c) (fsize f)" by simp
  show ?thesis unfolding slice_def Let_def 1 2 3 ..
qed

lemma sock_state_eqI: "sockets s' = sockets s \<Longrightarrow> sock_state s' h = sock_state s h"
  by (simp add: sock_state_def)

lemma ws_is_open_eqI:
  "ws s' = ws s \<Longrightarrow> sockets s' = sockets s \<Longrightarrow> ws_is_open s' = ws_is_open s"
  by (simp add: ws_is_open_def sock_state_def split: option.splits)

lemma ws_send_open:
  assumes "ws s = Some h" and "sock_state s h = OPEN"
  shows "ws_send fr s = Inr (s\<lparr>trace := trace s @ [Transmit h fr]\<rparr>)"
  using assms by (simp add: ws_send_def socket_send_def)

text \<open>
  An upload that nothing interrupts: from the call to its return, over an open socket,
  with every read succeeding and no other handler running in between. Every event of the
  call is enabled when its turn comes, and the call returns.
\<close>

lemma uninterrupted_upload:
  assumes f: "currentFile s = Some f" and w: "ws s = Some h" and o: "sock_state s h = OPEN"
    and n: "n = ceil_div (fsize f) 1048576" and u: "u = length (uploads s)"
  shows "all_enabled ev (upload_events u n) (sendFileChunks ev s)
    \<and> run ev (upload_events u n) (sendFileChunks ev s) =
      s\<lparr>isSendingFile := False, isChatEnabled := False, isUploadingFile := True,
        currentFile := None, uploads := uploads s @ [Returned],
        trace := trace s @ concat (map (round_effects h f 1048576 n) [0..<n])
                   @ [Transmit h (FileComplete (fname f) n)]\<rparr>"
proof -
  define re where "re = round_effects h f 1048576 n"
  define chunk where "chunk i = Blob (i * 1048576) (min ((i + 1) * 1048576) (fsize f))" for i
  define base where "base i x =
      s\<lparr>isSendingFile := True, isChatEnabled := False, isUploadingFile := True,
        uploads := uploads s @ [x], trace := trace s @ concat (map re [0..<i])\<rparr>" for i x
  define final where "final =
      s\<lparr>isSendingFile := False, isChatEnabled := False, isUploadingFile := True,
        currentFile := None, uploads := uploads s @ [Returned],
        trace := trace s @ concat (map re [0..<n]) @ [Transmit h (FileComplete (fname f) n)]\<rparr>"
  define R where "R i = (base i (Reading n i (chunk i)))\<lparr>trace :=
      trace s @ concat (map re [0..<i]) @ [ReadChunk (chunk i)]\<rparr>" for i
  define E where "E i = (if i < n then R i else final)" for i
  have re: "re i = [ReadChunk (chunk i), Transmit h (FileChunk i n (fname f) (chunk i))]" for i
    by (simp add: re_def round_effects_def chunk_def)
  have "sock_state (base i x) h = sock_state s h" for i x
    by (rule sock_state_eqI) (simp add: base_def)
  then have b: "currentFile (base i x) = Some f" "ws (base i x) = Some h"
    "sock_state (base i x) h = OPEN" "uploads (base i x) = uploads s @ [x]" for i x
    using f w o by (simp_all add: base_def)
  have sl: "slice f (i * 1048576) (min (i * 1048576 + 1048576) (fsize f)) = chunk i"
    if "i < n" for i
  proof -
    from that n have "i * 1048576 < fsize f" by (intro ceil_div_lt) simp_all
    then have "slice f (i * 1048576) (min (i * 1048576 + 1048576) (fsize f)) =
        Blob (i * 1048576) (min (i * 1048576 + 1048576) (fsize f))"
      by (rule slice_inside)
    then show ?thesis by (simp add: chunk_def)
  qed
  have enter: "upload_round ev u 1048576 n i (base i x) = E i" if "i \<le> n" for i x
  proof (cases "i < n")
    case True
    with sl [OF True] b [of i x] u show ?thesis
      by (simp add: upload_round_def Let_def set_upload_def E_def R_def base_def)
  next
    case False
    with that have i: "i = n" by simp
    from b [of i x] have "ws_send (FileComplete (fname f) n) (base i x) =
        Inr ((base i x)\<lparr>trace := trace (base i x) @ [Transmit h (FileComplete (fname f) n)]\<rparr>)"
      by (intro ws_send_open)
    with False b [of i x] u i show ?thesis
      by (simp add: upload_round_def upload_complete_def set_upload_def E_def final_def
            base_def)
  qed
  have "sock_state (R i) h = sock_state s h" for i
    by (rule sock_state_eqI) (simp add: R_def base_def)
  then have Rf: "currentFile (R i) = Some f" "ws (R i) = Some h" "sock_state (R i) h = OPEN"
    "upload_at (R i) u = Reading n i (chunk i)" for i
    using f w o u by (simp_all add: R_def base_def upload_at_def)
  have round: "enabled (ReadDone u True) (R i)
      \<and> enabled (DelayDone u) (fire ev (ReadDone u True) (R i))
      \<and> fire ev (DelayDone u) (fire ev (ReadDone u True) (R i)) = E (i + 1)"
    if "i < n" for i
  proof -
    from Rf [of i] have "ws_send (FileChunk i n (fname f) (chunk i)) (R i) =
        Inr ((R i)\<lparr>trace := trace (R i) @ [Transmit h (FileChunk i n (fname f) (chunk i))]\<rparr>)"
      by (intro ws_send_open)
    with Rf [of i] have l: "fire ev (ReadDone u True) (R i) =
        set_upload u (Delaying n i)
          ((R i)\<lparr>trace := trace (R i) @ [Transmit h (FileChunk i n (fname f) (chunk i))]\<rparr>)"
      by (simp add: reader_onload_def)
    have d: "set_upload u (Delaying n i)
          ((R i)\<lparr>trace := trace (R i) @ [Transmit h (FileChunk i n (fname f) (chunk i))]\<rparr>)
        = base (i + 1) (Delaying n i)"
      using u by (simp add: set_upload_def R_def base_def re)
    from b [of "i + 1" "Delaying n i"] u
    have at: "upload_at (base (i + 1) (Delaying n i)) u = Delaying n i"
      by (simp add: upload_at_def)
    from that have "i + 1 \<le> n" by simp
    from enter [OF this, of "Delaying n i"] at
    have "fire ev (DelayDone u) (base (i + 1) (Delaying n i)) = E (i + 1)"
      by (simp add: after_delay_def)
    with l d at Rf [of i] show ?thesis by simp
  qed
  have go: "all_enabled ev (upload_events u (n - i)) (E i)
      \<and> run ev (upload_events u (n - i)) (E i) = final" if "i \<le> n" for i
    using that
  proof (induction "n - i" arbitrary: i)
    case 0
    then have "i = n" by simp
    then show ?case by (simp add: upload_events_def E_def)
  next
    case (Suc k)
    then have lt: "i < n" and k: "k = n - (i + 1)" and le: "i + 1 \<le> n" by simp_all
    from lt have ei: "E i = R i" by (simp add: E_def)
    from lt have "n - i = Suc (n - (i + 1))" by simp
    then have ue: "upload_events u (n - i) =
        ReadDone u True # DelayDone u # upload_events u (n - (i + 1))"
      by (simp only: upload_events_def replicate_Suc concat.simps append.simps)
    from round [OF lt] Suc.hyps(1) [OF k le] show ?case
      unfolding ue ei by simp
  qed
  from f have "sendFileChunks ev s = upload_round ev u 1048576 n 0 (base 0 Returned)"
    by (simp add: sendFileChunks_def Let_def base_def n u)
  with enter [of 0 Returned] have "sendFileChunks ev s = E 0" by simp
  with go [of 0] show ?thesis by (simp add: final_def re_def)
qed

lemma transmitted_append: "transmitted (xs @ ys) = transmitted xs @ transmitted ys"
  by (induction xs rule: transmitted.induct) simp_all

lemma transmitted_rounds:
  "transmitted (concat (map (round_effects h f c n) js)) =
      map (\<lambda>i. FileChunk i n (fname f) (Blob (i * c) (min ((i + 1) * c) (fsize f)))) js"
  by (induction js) (simp_all add: transmitted_append round_effects_def)

subsection \<open>Strings\<close>

lemma str_eq_iff: "str a = str b \<longleftrightarrow> a = b"
  by (simp add: str_def inj_map_eq_map inj_of_char)

lemma str_append: "str (a @ b) = str a @ str b"
  by (simp add: str_def)

lemma startsWith_str: "startsWith (str a) (str b) \<longleftrightarrow> take (length b) a = b"
proof -
  have "take (length b) (str a) = str (take (length b) a)"
    by (simp add: str_def take_map)
  moreover have "length (str b) = length b"
    by (simp add: str_def)
  ultimately show ?thesis
    by (simp add: startsWith_def str_eq_iff)
qed

text \<open>Two prefixes of one string agree as far as both reach.\<close>

lemma startsWith_both:
  assumes "startsWith c (str p)" and "startsWith c (str q)"
  shows "take (min (length p) (length q)) p = take (min (length p) (length q)) q"
proof -
  from assms have p: "take (length p) c = str p" and q: "take (length q) c = str q"
    by (simp_all add: startsWith_def str_def)
  have "str (take (min (length p) (length q)) p) = take (min (length p) (length q)) (str p)"
    by (simp add: str_def take_map)
  also have "\<dots> = take (min (length p) (length q)) c"
    by (simp add: p [symmetric] min.commute)
  also have "\<dots> = take (min (length p) (length q)) (str q)"
    by (simp add: q [symmetric])
  also have "\<dots> = str (take (min (length p) (length q)) q)"
    by (simp add: str_def take_map)
  finally show ?thesis by (simp add: str_eq_iff)
qed

subsection \<open>The router\<close>

text \<open>The two status patterns that the router answers with flags alone.\<close>

lemma router_log_processed:
  assumes "startsWith c (str ''Log file processed successfully:'')"
  shows "onMessageReceived
           \<lparr>mtype = JStr (str ''system''), content = JStr c, timestamp = t\<rparr> s =
          (None, s\<lparr>isProcessingFile := False, isUploadingFile := False,
                   isProcessingQuestion := False\<rparr>)"
proof -
  have 1: "\<not> startsWith c (str ''Welcome! Your client ID is:'')"
    using startsWith_both [OF assms, of "''Welcome! Your client ID is:''"] by auto
  have 2: "c \<noteq> str ''Processing File''"
    using assms by (auto simp: startsWith_str)
  have 3: "c \<noteq> str ''Connected to chat server''"
    using assms by (auto simp: startsWith_str)
  from assms 1 2 3 show ?thesis
    by (simp add: onMessageReceived_def route_system_def str_eq_iff)
qed

lemma router_file_saved:
  assumes "startsWith c (str ''File saved successfully:'')"
  shows "onMessageReceived
           \<lparr>mtype = JStr (str ''system''), content = JStr c, timestamp = t\<rparr> s =
          (None, s\<lparr>isUploadingFile := False, isProcessingFile := True\<rparr>)"
proof -
  have 1: "\<not> startsWith c (str ''Welcome! Your client ID is:'')"
    using startsWith_both [OF assms, of "''Welcome! Your client ID is:''"] by auto
  have 2: "c \<noteq> str ''Processing File''"
    using assms by (auto simp: startsWith_str)
  have 3: "c \<noteq> str ''Connected to chat server''"
    using assms by (auto simp: startsWith_str)
  have 4: "\<not> startsWith c (str ''Log file processed successfully:'')"
    using startsWith_both [OF assms, of "''Log file processed successfully:''"] by auto
  from assms 1 2 3 4 show ?thesis
    by (simp add: onMessageReceived_def route_system_def str_eq_iff)
qed




text \<open>
  C6, as stated, fails: the content \<open>Processing File\<close> is none of the greeting, the
  client-id greeting, the file-saved pattern and the log-processed pattern, and the router
  does not append it to the history.
\<close>

theorem processing_file_is_suppressed:
  "str ''Processing File'' \<noteq> str ''Connected to chat server''
   \<and> \<not> startsWith (str ''Processing File'') (str ''Welcome! Your client ID is:'')
   \<and> \<not> startsWith (str ''Processing File'') (str ''File saved successfully:'')
   \<and> \<not> startsWith (str ''Processing File'') (str ''Log file processed successfully:'')
   \<and> onMessageReceived \<lparr>mtype = JStr (str ''system''),
         content = JStr (str ''Processing File''),
         timestamp = JStr (str ''2025-06-01T12:00:01.000Z'')\<rparr> init = (None, init)
   \<and> messages init = []"
  by (simp add: onMessageReceived_def route_system_def startsWith_str str_eq_iff init_def)

text \<open>
  C6, amended. For a \<open>system\<close> message with text content: the content
  \<open>Connected to chat server\<close>, a content that starts with
  \<open>Welcome! Your client ID is:\<close> and the content \<open>Processing File\<close> leave the state
  unchanged; a content that starts with \<open>Log file processed successfully:\<close> clears
  \<open>isProcessingFile\<close>, \<open>isUploadingFile\<close> and \<open>isProcessingQuestion\<close> and appends
  nothing; a content that starts with \<open>File saved successfully:\<close> clears
  \<open>isUploadingFile\<close>, sets \<open>isProcessingFile\<close> and appends nothing; every other content
  is appended to the history as a \<open>system\<close> entry and changes nothing else. In each case
  the router raises nothing.
\<close>

theorem system_message_dispatch:
  fixes c :: jstring and t :: jsval and s :: state
  defines "r \<equiv> onMessageReceived
                  \<lparr>mtype = JStr (str ''system''), content = JStr c, timestamp = t\<rparr> s"
  shows "(c = str ''Connected to chat server''
            \<or> startsWith c (str ''Welcome! Your client ID is:'')
            \<or> c = str ''Processing File'' \<longrightarrow> r = (None, s))
    \<and> (startsWith c (str ''Log file processed successfully:'') \<longrightarrow>
          r = (None, s\<lparr>isProcessingFile := False, isUploadingFile := False,
                       isProcessingQuestion := False\<rparr>))
    \<and> (startsWith c (str ''File saved successfully:'') \<longrightarrow>
          r = (None, s\<lparr>isUploadingFile := False, isProcessingFile := True\<rparr>))
    \<and> (c \<noteq> str ''Connected to chat server''
          \<and> \<not> startsWith c (str ''Welcome! Your client ID is:'')
          \<and> c \<noteq> str ''Processing File''
          \<and> \<not> startsWith c (str ''Log file processed successfully:'')
          \<and> \<not> startsWith c (str ''File saved successfully:'') \<longrightarrow>
          r = (None, s\<lparr>messages := messages s @
                 [\<lparr>mtype = JStr (str ''system''), content = JStr c, timestamp = t\<rparr>]\<rparr>))"
proof -
  have a: "c = str ''Connected to chat server''
            \<or> startsWith c (str ''Welcome! Your client ID is:'')
            \<or> c = str ''Processing File'' \<longrightarrow> r = (None, s)"
    by (auto simp: r_def onMessageReceived_def route_system_def str_eq_iff)
  have b: "startsWith c (str ''Log file processed successfully:'') \<longrightarrow>
          r = (None, s\<lparr>isProcessingFile := False, isUploadingFile := False,
                       isProcessingQuestion := False\<rparr>)"
    by (simp add: r_def router_log_processed)
  have d: "startsWith c (str ''File saved successfully:'') \<longrightarrow>
          r = (None, s\<lparr>isUploadingFile := False, isProcessingFile := True\<rparr>)"
    by (simp add: r_def router_file_saved)
  have e: "c \<noteq> str ''Connected to chat server''
          \<and> \<not> startsWith c (str ''Welcome! Your client ID is:'')
          \<and> c \<noteq> str ''Processing File''
          \<and> \<not> startsWith c (str ''Log file processed successfully:'')
          \<and> \<not> startsWith c (str ''File saved successfully:'') \<longrightarrow>
          r = (None, s\<lparr>messages := messages s @
                 [\<lparr>mtype = JStr (str ''system''), content = JStr c, timestamp = t\<rparr>]\<rparr>)"
    by (simp add: r_def onMessageReceived_def route_system_def push_def str_eq_iff)
  from a b d e show ?thesis by blast
qed

theorem system_message_dispatch_witness:
  "onMessageReceived \<lparr>mtype = JStr (str ''system''),
       content = JStr (str ''Connected to chat server''),
       timestamp = JStr (now env0)\<rparr> connected0 = (None, connected0)
   \<and> onMessageReceived \<lparr>mtype = JStr (str ''system''),
       content = JStr (str ''Log file processed successfully: flight.bin''),
       timestamp = JStr (now env0)\<rparr> connected0
     = (None, connected0\<lparr>isProcessingFile := False, isUploadingFile := False,
              isProcessingQuestion := False\<rparr>)
   \<and> onMessageReceived \<lparr>mtype = JStr (str ''system''),
       content = JStr (str ''File saved successfully: flight.bin''),
       timestamp = JStr (now env0)\<rparr> connected0
     = (None, connected0\<lparr>isUploadingFile := False, isProcessingFile := True\<rparr>)
   \<and> onMessageReceived \<lparr>mtype = JStr (str ''system''),
       content = JStr (str ''Server is restarting''),
       timestamp = JStr (now env0)\<rparr> connected0
     = (None, connected0\<lparr>messages := messages connected0 @
          [\<lparr>mtype = JStr (str ''system''), content = JStr (str ''Server is restarting''),
            timestamp = JStr (now env0)\<rparr>]\<rparr>)"
  using system_message_dispatch [of "str ''Connected to chat server''" "JStr (now env0)"
      connected0]
    system_message_dispatch [of "str ''Log file processed successfully: flight.bin''"
      "JStr (now env0)" connected0]
    system_message_dispatch [of "str ''File saved successfully: flight.bin''"
      "JStr (now env0)" connected0]
    system_message_dispatch [of "str ''Server is restarting''" "JStr (now env0)" connected0]
  by (simp add: startsWith_str str_eq_iff)

subsection \<open>Connecting\<close>

text \<open>
  C5, as stated, fails: \<open>isConnected\<close> does not make \<open>connectWebSocket\<close> a no-op. Two
  loads of a log before the first socket opens construct two sockets, and \<open>this.ws\<close> is
  the second. When the first one opens, \<open>isConnected\<close> becomes true while \<open>this.ws\<close> is
  still connecting, and a call of \<open>connectWebSocket\<close> in that state constructs a third
  socket and returns a pending promise.
\<close>

theorem connect_while_connected_opens_socket:
  "all_enabled env0 double_load init
   \<and> isConnected (run env0 double_load init)
   \<and> ws (run env0 double_load init) = Some 1
   \<and> sock_state (run env0 double_load init) 1 = CONNECTING
   \<and> length (sockets (run env0 double_load init)) = 2
   \<and> fst (connectWebSocket env0 (run env0 double_load init)) = Pending 2
   \<and> length (sockets (snd (connectWebSocket env0 (run env0 double_load init)))) = 3
   \<and> ws (snd (connectWebSocket env0 (run env0 double_load init))) = Some 2"
  by (simp add: run_defs double_load_def)

text \<open>
  C5, amended. When \<open>this.ws\<close> refers to a socket whose ready state is \<open>OPEN\<close>,
  \<open>connectWebSocket\<close> returns at its first test with a resolved promise: it constructs no
  socket and leaves every field of the state as it was.
\<close>

theorem connect_when_open_is_noop:
  assumes "ws s = Some h" and "sock_state s h = OPEN"
  shows "connectWebSocket ev s = (Resolved, s)"
  using assms by (simp add: connectWebSocket_def ws_is_open_def)

theorem connect_when_open_is_noop_witness:
  "ws connected0 = Some 0 \<and> sock_state connected0 0 = OPEN
   \<and> connectWebSocket env0 connected0 = (Resolved, connected0)"
proof -
  have 1: "ws connected0 = Some 0" and 2: "sock_state connected0 0 = OPEN"
    by (simp_all add: connected0_def init_def sock_state_def)
  from connect_when_open_is_noop [OF 1 2, of env0] 1 2 show ?thesis by simp
qed

subsection \<open>Who writes the processing flags\<close>

lemma flags_but_upload:
  assumes "but_upload a = but_upload b"
  shows "isProcessingQuestion a = isProcessingQuestion b
         \<and> isProcessingFile a = isProcessingFile b"
proof -
  have "isProcessingQuestion a = isProcessingQuestion (but_upload a)"
    and "isProcessingFile a = isProcessingFile (but_upload a)"
    and "isProcessingQuestion b = isProcessingQuestion (but_upload b)"
    and "isProcessingFile b = isProcessingFile (but_upload b)"
    by (simp_all add: but_upload_def)
  with assms show ?thesis by simp
qed

lemma flags_resume:
  "isProcessingQuestion (onFileLoaded_resume ev s) = isProcessingQuestion s
   \<and> isProcessingFile (onFileLoaded_resume ev s) = isProcessingFile s"
  by (rule flags_but_upload) (rule onFileLoaded_resume_but_upload)

lemma flags_sendFileChunks:
  "isProcessingQuestion (sendFileChunks ev s) = isProcessingQuestion s
   \<and> isProcessingFile (sendFileChunks ev s) = isProcessingFile s"
  by (rule flags_but_upload) (rule sendFileChunks_but_upload)

lemma flags_connect: "flags (snd (connectWebSocket ev s)) = flags s"
proof -
  from connectWebSocket_frame [of ev s] obtain cid sk w where
    "snd (connectWebSocket ev s) = s\<lparr>clientId := cid, sockets := sk, ws := w\<rparr>" by blast
  then show ?thesis by (simp add: flags_def)
qed

lemma flags_updateParsedData: "flags (updateParsedData ev s) = flags s"
proof -
  from updateParsedData_frame [of ev s] obtain pd tr where
    "updateParsedData ev s = s\<lparr>parsedData := pd, trace := tr\<rparr>" by blast
  then show ?thesis by (simp add: flags_def)
qed

lemma flags_settle: "flags (snd (settle h s)) = flags s"
  by (simp add: settle_def flags_def)

lemma flags_set_ready: "flags (set_ready h r s) = flags s"
  by (simp add: set_ready_def flags_def)

lemma flags_onFileLoaded:
  "isProcessingQuestion (onFileLoaded ev s) = isProcessingQuestion s
   \<and> isProcessingFile (onFileLoaded ev s) = isProcessingFile s"
proof -
  define s1 where "s1 = updateParsedData ev (s\<lparr>hasFile := True\<rparr>)"
  have c1: "flags s1 = flags s"
    unfolding s1_def by (simp add: flags_updateParsedData) (simp add: flags_def)
  obtain p s2 where cw: "connectWebSocket ev s1 = (p, s2)"
    by (cases "connectWebSocket ev s1")
  with flags_connect [of ev s1] c1 have c2: "flags s2 = flags s" by simp
  show ?thesis
  proof (cases p)
    case Resolved
    with cw have "onFileLoaded ev s = onFileLoaded_resume ev s2"
      by (simp add: onFileLoaded_def s1_def)
    with c2 flags_resume [of ev s2] show ?thesis by (simp add: flags_def)
  next
    case (Pending h)
    with cw have "onFileLoaded ev s = set_awaited h s2"
      by (simp add: onFileLoaded_def s1_def)
    with c2 show ?thesis by (simp add: set_awaited_def flags_def)
  qed
qed

lemma flags_open:
  "isProcessingQuestion (fire ev (SockOpen h) s) = isProcessingQuestion s
   \<and> isProcessingFile (fire ev (SockOpen h) s) = isProcessingFile s"
proof -
  obtain k s' where st: "settle h (onopen (set_ready h OPEN s)) = (k, s')"
    by (cases "settle h (onopen (set_ready h OPEN s))")
  with flags_settle [of h "onopen (set_ready h OPEN s)"] flags_set_ready [of h OPEN s]
  have "flags s' = flags s" by (simp add: flags_def onopen_def)
  with st flags_resume [of ev s'] show ?thesis by (cases k) (simp_all add: flags_def)
qed

lemma flags_error: "flags (fire ev (SockError h) s) = flags s"
proof -
  obtain k s' where st: "settle h (onerror ev s) = (k, s')"
    by (cases "settle h (onerror ev s)")
  with flags_settle [of h "onerror ev s"] have "flags s' = flags s"
    by (simp add: flags_def onerror_def push_def)
  with st show ?thesis
    by (cases k) (simp_all add: flags_def onFileLoaded_catch_def push_def)
qed

lemma flags_sendMessage:
  "isUploadingFile (sendMessage ev s) = isUploadingFile s
   \<and> isProcessingFile (sendMessage ev s) = isProcessingFile s
   \<and> isProcessingQuestion (sendMessage ev s) =
       (isProcessingQuestion s \<and> (blank (newMessage s) \<or> \<not> isConnected s \<or> ws s = None))"
  by (auto simp: sendMessage_def push_def Let_def ws_send_def socket_send_def
        split: option.splits ready_state.splits sum.splits)

lemma flags_read_done:
  "isProcessingQuestion (fire ev (ReadDone u ok) s) = isProcessingQuestion s
   \<and> isProcessingFile (fire ev (ReadDone u ok) s) = isProcessingFile s"
  by (rule flags_but_upload) (simp add: reader_onload_but_upload reader_onerror_but_upload)

lemma flags_delay_done:
  "isProcessingQuestion (fire ev (DelayDone u) s) = isProcessingQuestion s
   \<and> isProcessingFile (fire ev (DelayDone u) s) = isProcessingFile s"
  by (rule flags_but_upload) (simp add: after_delay_but_upload)

text \<open>
  C8, as stated, fails: \<open>sendMessage\<close> writes \<open>isProcessingQuestion\<close>. With the flag set,
  a connected session and a message typed, sending clears it.
\<close>

theorem sendMessage_resets_question_flag:
  "isProcessingQuestion (connected0\<lparr>newMessage := str ''How high did it fly?'',
       isProcessingQuestion := True\<rparr>)
   \<and> \<not> isProcessingQuestion (sendMessage env0
       (connected0\<lparr>newMessage := str ''How high did it fly?'',
          isProcessingQuestion := True\<rparr>))"
  by (simp add: sendMessage_def connected0_def init_def blank_def isspace_def push_def
        ws_send_def socket_send_def sock_state_def str_def entry_def)

text \<open>
  C8, amended. Of all the events that reach the component, only three kinds can change one
  of \<open>isProcessingQuestion\<close>, \<open>isUploadingFile\<close> and \<open>isProcessingFile\<close>: an inbound
  message (through the router); the click on Send, where \<open>sendMessage\<close> clears
  \<open>isProcessingQuestion\<close> exactly when it goes on to send (the trimmed message is not
  empty, \<open>isConnected\<close> is true and \<open>this.ws\<close> is not null), and leaves the other two;
  and the events that start or continue the upload (the loaded file, the \<open>open\<close> of a
  socket, the end of a chunk's read and the end of the pause between two chunks), where
  \<open>sendFileChunks\<close> can change \<open>isUploadingFile\<close> only. Every other event leaves the
  three flags as they were, and so does the unbound method \<open>onMessage\<close>.
\<close>

theorem flag_writers:
  "(case e of
      HubMessage m \<Rightarrow> True
    | SockMessage h d \<Rightarrow> True
    | SendClicked \<Rightarrow>
        isUploadingFile (fire ev e s) = isUploadingFile s
        \<and> isProcessingFile (fire ev e s) = isProcessingFile s
        \<and> isProcessingQuestion (fire ev e s) =
            (isProcessingQuestion s
             \<and> (blank (newMessage s) \<or> \<not> isConnected s \<or> ws s = None))
    | FileLoaded \<Rightarrow>
        isProcessingQuestion (fire ev e s) = isProcessingQuestion s
        \<and> isProcessingFile (fire ev e s) = isProcessingFile s
    | SockOpen h \<Rightarrow>
        isProcessingQuestion (fire ev e s) = isProcessingQuestion s
        \<and> isProcessingFile (fire ev e s) = isProcessingFile s
    | ReadDone u ok \<Rightarrow>
        isProcessingQuestion (fire ev e s) = isProcessingQuestion s
        \<and> isProcessingFile (fire ev e s) = isProcessingFile s
    | DelayDone u \<Rightarrow>
        isProcessingQuestion (fire ev e s) = isProcessingQuestion s
        \<and> isProcessingFile (fire ev e s) = isProcessingFile s
    | _ \<Rightarrow> flags (fire ev e s) = flags s)
   \<and> isProcessingQuestion (sendFileChunks ev s) = isProcessingQuestion s
   \<and> isProcessingFile (sendFileChunks ev s) = isProcessingFile s
   \<and> flags (onMessage d s) = flags s"
proof -
  have "flags (onMessage d s) = flags s"
    by (simp add: onMessage_def push_def flags_def split: option.splits)
  moreover have "case e of
      HubMessage m \<Rightarrow> True
    | SockMessage h d \<Rightarrow> True
    | SendClicked \<Rightarrow>
        isUploadingFile (fire ev e s) = isUploadingFile s
        \<and> isProcessingFile (fire ev e s) = isProcessingFile s
        \<and> isProcessingQuestion (fire ev e s) =
            (isProcessingQuestion s
             \<and> (blank (newMessage s) \<or> \<not> isConnected s \<or> ws s = None))
    | FileLoaded \<Rightarrow>
        isProcessingQuestion (fire ev e s) = isProcessingQuestion s
        \<and> isProcessingFile (fire ev e s) = isProcessingFile s
    | SockOpen h \<Rightarrow>
        isProcessingQuestion (fire ev e s) = isProcessingQuestion s
        \<and> isProcessingFile (fire ev e s) = isProcessingFile s
    | ReadDone u ok \<Rightarrow>
        isProcessingQuestion (fire ev e s) = isProcessingQuestion s
        \<and> isProcessingFile (fire ev e s) = isProcessingFile s
    | DelayDone u \<Rightarrow>
        isProcessingQuestion (fire ev e s) = isProcessingQuestion s
        \<and> isProcessingFile (fire ev e s) = isProcessingFile s
    | _ \<Rightarrow> flags (fire ev e s) = flags s"
  proof (cases e)
    case FileLoaded
    with flags_onFileLoaded [of ev s] show ?thesis by simp
  next
    case (FileReady f)
    then show ?thesis by (simp add: setCurrentFile_def flags_def)
  next
    case (HubMessage m)
    then show ?thesis by simp
  next
    case (Typed t)
    then show ?thesis by (simp add: flags_def)
  next
    case SendClicked
    with flags_sendMessage [of ev s] show ?thesis by simp
  next
    case Toggle
    then show ?thesis by (simp add: toggleChat_def flags_def)
  next
    case Destroy
    then show ?thesis
      by (simp add: disconnectWebSocket_def set_ready_def flags_def split: option.splits)
  next
    case (SockOpen h)
    with flags_open [of ev h s] show ?thesis by simp
  next
    case (SockError h)
    with flags_error [of ev h s] show ?thesis by simp
  next
    case (SockClose h)
    then show ?thesis
      by (simp add: onclose_def set_ready_def push_def flags_def Let_def)
  next
    case (SockMessage h d)
    then show ?thesis by simp
  next
    case TimerFire
    with flags_connect [of ev "s\<lparr>timers := tl (timers s)\<rparr>"] show ?thesis
      by (simp add: flags_def)
  next
    case (ReadDone u ok)
    with flags_read_done [of ev u ok s] show ?thesis by simp
  next
    case (DelayDone u)
    with flags_delay_done [of ev u s] show ?thesis by simp
  qed
  ultimately show ?thesis using flags_sendFileChunks [of ev s] by simp
qed

theorem flag_writers_witness:
  "isUploadingFile (fire env0 SendClicked
       (connected0\<lparr>newMessage := str ''How high did it fly?'',
          isProcessingQuestion := True\<rparr>))
     = isUploadingFile connected0
   \<and> \<not> isProcessingQuestion (fire env0 SendClicked
       (connected0\<lparr>newMessage := str ''How high did it fly?'',
          isProcessingQuestion := True\<rparr>))
   \<and> isProcessingQuestion (fire env0 SendClicked
       (connected0\<lparr>newMessage :=
          [0x0009, 0x000A, 0x000B, 0x000C, 0x000D, 0x0020, 0x00A0, 0x1680, 0x2000, 0x2001,
           0x2002, 0x2003, 0x2004, 0x2005, 0x2006, 0x2007, 0x2008, 0x2009, 0x200A, 0x2028,
           0x2029, 0x202F, 0x205F, 0x3000, 0xFEFF],
          isProcessingQuestion := True\<rparr>))
   \<and> \<not> isProcessingQuestion (fire env0 SendClicked
       (connected0\<lparr>newMessage := [0x0020, 0x200B], isProcessingQuestion := True\<rparr>))
   \<and> \<not> isProcessingQuestion (fire env0 SendClicked
       (connected0\<lparr>newMessage := [0x0085], isProcessingQuestion := True\<rparr>))
   \<and> flags (fire env0 (SockClose 0) connected0) = flags connected0"
  using flag_writers [where e = SendClicked and ev = env0 and d = None and
      s = "connected0\<lparr>newMessage := str ''How high did it fly?'',
             isProcessingQuestion := True\<rparr>"]
    flag_writers [where e = SendClicked and ev = env0 and d = None and
      s = "connected0\<lparr>newMessage :=
          [0x0009, 0x000A, 0x000B, 0x000C, 0x000D, 0x0020, 0x00A0, 0x1680, 0x2000, 0x2001,
           0x2002, 0x2003, 0x2004, 0x2005, 0x2006, 0x2007, 0x2008, 0x2009, 0x200A, 0x2028,
           0x2029, 0x202F, 0x205F, 0x3000, 0xFEFF],
          isProcessingQuestion := True\<rparr>"]
    flag_writers [where e = SendClicked and ev = env0 and d = None and
      s = "connected0\<lparr>newMessage := [0x0020, 0x200B], isProcessingQuestion := True\<rparr>"]
    flag_writers [where e = SendClicked and ev = env0 and d = None and
      s = "connected0\<lparr>newMessage := [0x0085], isProcessingQuestion := True\<rparr>"]
    flag_writers [where e = "SockClose 0" and ev = env0 and s = connected0 and d = None]
  by (simp add: connected0_def init_def blank_def isspace_def str_def del: fire.simps)

text \<open>
  An upload that nothing interrupts: with a current file of size \<open>S\<close>, \<open>this.ws\<close> an open
  socket and every read successful, the events of the upload are enabled one after the
  other, and the frames transmitted are the chunks \<open>0\<close> to \<open>n - 1\<close> in this order, with
  \<open>n\<close> the ceiling of \<open>S / 1048576\<close> and chunk \<open>i\<close> the bytes from \<open>i * 1048576\<close> to
  \<open>min ((i + 1) * 1048576) S\<close>, followed by one completion frame.
\<close>

lemma undisturbed_upload_sends_every_chunk:
  assumes "currentFile s = Some f" and "ws s = Some h" and "sock_state s h = OPEN"
    and "n = ceil_div (fsize f) 1048576" and "u = length (uploads s)"
  shows "int n = \<lceil>real (fsize f) / 1048576\<rceil>
    \<and> all_enabled ev (upload_events u n) (sendFileChunks ev s)
    \<and> transmitted (trace (run ev (upload_events u n) (sendFileChunks ev s))) =
        transmitted (trace s)
        @ map (\<lambda>i. FileChunk i n (fname f)
                 (Blob (i * 1048576) (min ((i + 1) * 1048576) (fsize f)))) [0..<n]
        @ [FileComplete (fname f) n]"
proof -
  have "int n = \<lceil>real (fsize f) / real (1048576 :: nat)\<rceil>"
    unfolding assms(4) by (rule ceil_div_ceiling) simp
  then have a: "int n = \<lceil>real (fsize f) / 1048576\<rceil>" by simp
  note r = uninterrupted_upload [OF assms, of ev]
  from r have b: "all_enabled ev (upload_events u n) (sendFileChunks ev s)" by simp
  from r have "trace (run ev (upload_events u n) (sendFileChunks ev s)) =
      trace s @ concat (map (round_effects h f 1048576 n) [0..<n])
        @ [Transmit h (FileComplete (fname f) n)]"
    by simp
  then have "transmitted (trace (run ev (upload_events u n) (sendFileChunks ev s))) =
        transmitted (trace s)
        @ map (\<lambda>i. FileChunk i n (fname f)
                 (Blob (i * 1048576) (min ((i + 1) * 1048576) (fsize f)))) [0..<n]
        @ [FileComplete (fname f) n]"
    by (simp add: transmitted_append transmitted_rounds)
  with a b show ?thesis by simp
qed

text \<open>
  C1. Every upload over a connected session should send the chunks \<open>0\<close> to \<open>n - 1\<close> of
  the uploaded file in this order, each with its slice, and then one completion frame.
  The code does not keep this guarantee when another file becomes current meanwhile.
  The number of chunks is computed once, from the file that is current when the upload
  starts; the slice, the size and the name are read from \<open>this.currentFile\<close> again in
  every round, after the uploader has been suspended at the read of the chunk and at the
  pause of 100 ms. The upload of the file \<open>flight.bin\<close> of 2.5 MiB over an open socket,
  with the file \<open>other.bin\<close> of 100 bytes becoming the current file after the first chunk
  has been sent: every event is enabled, the three chunks announced are sent with the
  indices 0, 1, 2, and the second and the third are empty slices of the other file,
  under its name, as is the completion frame. The bytes from 1 MiB to 2.5 MiB of
  \<open>flight.bin\<close> are never sent.
\<close>

theorem file_switch_mid_upload:
  "all_enabled env0 switch_events
      (sendFileChunks env0 (connected0\<lparr>currentFile := Some log25\<rparr>))
   \<and> transmitted (trace (run env0 switch_events
        (sendFileChunks env0 (connected0\<lparr>currentFile := Some log25\<rparr>)))) =
      [FileChunk 0 3 (str ''flight.bin'') (Blob 0 1048576),
       FileChunk 1 3 (str ''other.bin'') (Blob 100 100),
       FileChunk 2 3 (str ''other.bin'') (Blob 100 100),
       FileComplete (str ''other.bin'') 3]
   \<and> blob_size (Blob 100 100) = 0
   \<and> upload_at (run env0 switch_events
        (sendFileChunks env0 (connected0\<lparr>currentFile := Some log25\<rparr>))) 0 = Returned
   \<and> messages (run env0 switch_events
        (sendFileChunks env0 (connected0\<lparr>currentFile := Some log25\<rparr>))) = []"
  by (simp add: run_defs switch_events_def other0_def)

subsection \<open>The flags after a successful upload\<close>














subsection \<open>The upload without an open socket\<close>

text \<open>While \<open>this.ws\<close> is not an open socket, no step of the uploader transmits anything.\<close>

lemma ws_send_closed:
  assumes "\<not> ws_is_open s" and "ws_send fr s = Inr s'"
  shows "transmitted (trace s') = transmitted (trace s)"
  using assms
  by (auto simp: ws_send_def socket_send_def ws_is_open_def transmitted_append
        split: option.splits ready_state.splits)

lemma upload_catch_trace: "trace (upload_catch ev u e s) = trace s"
  by (simp add: upload_catch_def set_upload_def push_def)

lemma upload_complete_closed:
  assumes "\<not> ws_is_open s"
  shows "transmitted (trace (upload_complete ev u n s)) = transmitted (trace s)"
proof (cases "currentFile s")
  case None
  then show ?thesis by (simp add: upload_complete_def upload_catch_trace)
next
  case (Some f)
  show ?thesis
  proof (cases "ws_send (FileComplete (fname f) n) s")
    case (Inl e)
    with Some show ?thesis by (simp add: upload_complete_def upload_catch_trace)
  next
    case (Inr s')
    with Some ws_send_closed [OF assms Inr] show ?thesis
      by (simp add: upload_complete_def set_upload_def)
  qed
qed

lemma upload_round_closed:
  assumes "\<not> ws_is_open s"
  shows "transmitted (trace (upload_round ev u cs n i s)) = transmitted (trace s)"
proof (cases "i < n")
  case False
  with upload_complete_closed [OF assms, of ev u n] show ?thesis
    by (simp add: upload_round_def)
next
  case True
  then show ?thesis
    by (cases "currentFile s")
      (simp_all add: upload_round_def upload_catch_trace set_upload_def Let_def
         transmitted_append)
qed

lemma sendFileChunks_closed:
  assumes "\<not> ws_is_open s"
  shows "transmitted (trace (sendFileChunks ev s)) = transmitted (trace s)"
proof (cases "currentFile s")
  case None
  then show ?thesis by (simp add: sendFileChunks_def)
next
  case (Some f)
  define s1 where "s1 = s\<lparr>isSendingFile := True, isChatEnabled := False,
      isUploadingFile := True, uploads := uploads s @ [Returned]\<rparr>"
  have "ws_is_open s1 = ws_is_open s"
    by (rule ws_is_open_eqI) (simp_all add: s1_def)
  with assms have c: "\<not> ws_is_open s1" by simp
  have "sendFileChunks ev s =
      upload_round ev (length (uploads s)) 1048576 (ceil_div (fsize f) 1048576) 0 s1"
    using Some by (simp add: sendFileChunks_def Let_def s1_def)
  with upload_round_closed [OF c, of ev "length (uploads s)" 1048576
      "ceil_div (fsize f) 1048576" 0]
  show ?thesis by (simp add: s1_def)
qed

lemma reader_onload_closed:
  assumes "\<not> ws_is_open s"
  shows "transmitted (trace (reader_onload ev u s)) = transmitted (trace s)"
proof (cases "upload_at s u")
  case (Reading n i chunk)
  show ?thesis
  proof (cases "currentFile s")
    case None
    with Reading show ?thesis by (simp add: reader_onload_def upload_catch_trace)
  next
    case (Some f)
    show ?thesis
    proof (cases "ws_send (FileChunk i n (fname f) chunk) s")
      case (Inl e)
      with Reading Some show ?thesis by (simp add: reader_onload_def upload_catch_trace)
    next
      case (Inr s')
      with Reading Some ws_send_closed [OF assms Inr] show ?thesis
        by (simp add: reader_onload_def set_upload_def)
    qed
  qed
qed (simp_all add: reader_onload_def)

lemma reader_onerror_closed:
  "transmitted (trace (reader_onerror ev u s)) = transmitted (trace s)"
  by (cases "upload_at s u") (simp_all add: reader_onerror_def upload_catch_trace)

lemma after_delay_closed:
  assumes "\<not> ws_is_open s"
  shows "transmitted (trace (after_delay ev u s)) = transmitted (trace s)"
proof (cases "upload_at s u")
  case (Delaying n i)
  with upload_round_closed [OF assms, of ev u 1048576 n "i + 1"] show ?thesis
    by (simp add: after_delay_def)
qed (simp_all add: after_delay_def)

text \<open>
  With no socket at all: for an empty file the completion frame is the first send, it
  raises and the handler of the uploader runs at once; for any other file the first
  chunk is read, and when the read is over the send raises (or the read has failed) and
  the handler runs.
\<close>

lemma sendFileChunks_no_socket_empty:
  assumes "ws s = None" and "currentFile s = Some f" and "fsize f = 0"
  shows "sendFileChunks ev s =
    s\<lparr>isSendingFile := False, isChatEnabled := True, isUploadingFile := False,
      messages := messages s @
        [entry ''error'' (str ''Error sending file: '' @ message ev TypeError) (now ev)],
      uploads := uploads s @ [Returned]\<rparr>"
  using assms
  by (simp add: sendFileChunks_def Let_def ceil_div_def upload_round_def
        upload_complete_def ws_send_def upload_catch_def set_upload_def push_def)

lemma sendFileChunks_no_socket_start:
  assumes "currentFile s = Some f" and "fsize f \<noteq> 0"
  shows "sendFileChunks ev s =
    s\<lparr>isSendingFile := True, isChatEnabled := False, isUploadingFile := True,
      uploads := uploads s @
        [Reading (ceil_div (fsize f) 1048576) 0 (Blob 0 (min 1048576 (fsize f)))],
      trace := trace s @ [ReadChunk (Blob 0 (min 1048576 (fsize f)))]\<rparr>"
proof -
  from assms(2) have "0 < ceil_div (fsize f) 1048576"
    by (intro ceil_div_pos) simp_all
  moreover from assms(2)
  have "slice f 0 (min (0 + 1048576) (fsize f)) = Blob 0 (min (0 + 1048576) (fsize f))"
    by (intro slice_inside) simp
  then have "slice f 0 (min 1048576 (fsize f)) = Blob 0 (min 1048576 (fsize f))" by simp
  ultimately show ?thesis using assms(1)
    by (simp add: sendFileChunks_def Let_def upload_round_def set_upload_def)
qed

lemma read_done_no_socket:
  assumes "ws s = None" and "currentFile s = Some f" and "fsize f \<noteq> 0"
  shows "fire ev (ReadDone (length (uploads s)) ok) (sendFileChunks ev s) =
    s\<lparr>isSendingFile := False, isChatEnabled := True, isUploadingFile := False,
      messages := messages s @
        [entry ''error''
           (str ''Error sending file: ''
              @ message ev (if ok then TypeError else ProgressEvent)) (now ev)],
      uploads := uploads s @ [Returned],
      trace := trace s @ [ReadChunk (Blob 0 (min 1048576 (fsize f)))]\<rparr>"
  unfolding sendFileChunks_no_socket_start [OF assms(2,3)]
  using assms(1,2)
  by (simp add: reader_onload_def reader_onerror_def upload_at_def ws_send_def
        upload_catch_def set_upload_def push_def)

text \<open>
  C7, as stated, fails: \<open>sendFileChunks\<close> does not test the connection. Invoked with a
  file of 2.5 MiB while \<open>this.ws\<close> is null and \<open>isConnected\<close> is false, it reads the
  first chunk, and when the read is over it ends by appending an entry to the history,
  not by raising.
\<close>

theorem upload_reads_without_connection:
  "ws idle0 = None \<and> \<not> isConnected idle0 \<and> currentFile idle0 = Some log25
   \<and> trace idle0 = []
   \<and> trace (sendFileChunks env0 idle0) = [ReadChunk (Blob 0 1048576)]
   \<and> enabled (ReadDone 0 True) (sendFileChunks env0 idle0)
   \<and> messages (fire env0 (ReadDone 0 True) (sendFileChunks env0 idle0)) =
       [\<lparr>mtype = JStr (str ''error''),
         content = JStr (str ''Error sending file: send failed''),
         timestamp = JStr (str ''2025-06-01T12:00:00.000Z'')\<rparr>]
   \<and> upload_at (fire env0 (ReadDone 0 True) (sendFileChunks env0 idle0)) 0 = Returned"
  by (simp add: run_defs idle0_def message_def str_append [symmetric])

text \<open>
  C7, amended. Whenever \<open>this.ws\<close> is not an open socket, no step of the uploader (its
  start, the end of a read, the end of a pause) transmits a frame. When \<open>this.ws\<close> is
  null and there is a current file, the failure is handled inside the operation: for a
  file that is not empty the first chunk is read; then the send (or the read) fails, one
  entry of type \<open>error\<close> with the text \<open>Error sending file: \<close> and the message of the
  error is appended, \<open>isChatEnabled\<close> is set, \<open>isUploadingFile\<close> and \<open>isSendingFile\<close>
  are cleared, and the operation returns. The test of the connection is made by the
  caller: \<open>onFileLoaded\<close> does not invoke the uploader unless \<open>isConnected\<close> holds and
  there is a current file.
\<close>

theorem upload_without_open_socket:
  "(\<not> ws_is_open s \<longrightarrow>
      transmitted (trace (sendFileChunks ev s)) = transmitted (trace s)
      \<and> transmitted (trace (fire ev (ReadDone u ok) s)) = transmitted (trace s)
      \<and> transmitted (trace (fire ev (DelayDone u) s)) = transmitted (trace s))
   \<and> (ws s = None \<and> currentFile s = Some f \<and> fsize f = 0 \<longrightarrow>
        sendFileChunks ev s =
          s\<lparr>isSendingFile := False, isChatEnabled := True, isUploadingFile := False,
            messages := messages s @
              [\<lparr>mtype = JStr (str ''error''),
                content = JStr (str ''Error sending file: '' @ message ev TypeError),
                timestamp = JStr (now ev)\<rparr>],
            uploads := uploads s @ [Returned]\<rparr>)
   \<and> (ws s = None \<and> currentFile s = Some f \<and> fsize f \<noteq> 0 \<longrightarrow>
        trace (sendFileChunks ev s) =
          trace s @ [ReadChunk (Blob 0 (min 1048576 (fsize f)))]
        \<and> enabled (ReadDone (length (uploads s)) ok) (sendFileChunks ev s)
        \<and> fire ev (ReadDone (length (uploads s)) ok) (sendFileChunks ev s) =
          s\<lparr>isSendingFile := False, isChatEnabled := True, isUploadingFile := False,
            messages := messages s @
              [\<lparr>mtype = JStr (str ''error''),
                content = JStr (str ''Error sending file: '' @ message ev
                  (if ok then TypeError else ProgressEvent)),
                timestamp = JStr (now ev)\<rparr>],
            uploads := uploads s @ [Returned],
            trace := trace s @ [ReadChunk (Blob 0 (min 1048576 (fsize f)))]\<rparr>)
   \<and> (\<not> (isConnected s \<and> currentFile s \<noteq> None) \<longrightarrow> onFileLoaded_resume ev s = s)"
proof -
  have a: "transmitted (trace (sendFileChunks ev s)) = transmitted (trace s)
      \<and> transmitted (trace (fire ev (ReadDone u ok) s)) = transmitted (trace s)
      \<and> transmitted (trace (fire ev (DelayDone u) s)) = transmitted (trace s)"
    if "\<not> ws_is_open s"
    using sendFileChunks_closed [OF that, of ev] reader_onload_closed [OF that, of ev u]
      reader_onerror_closed [of ev u s] after_delay_closed [OF that, of ev u]
    by simp
  have b: "sendFileChunks ev s =
          s\<lparr>isSendingFile := False, isChatEnabled := True, isUploadingFile := False,
            messages := messages s @
              [\<lparr>mtype = JStr (str ''error''),
                content = JStr (str ''Error sending file: '' @ message ev TypeError),
                timestamp = JStr (now ev)\<rparr>],
            uploads := uploads s @ [Returned]\<rparr>"
    if "ws s = None \<and> currentFile s = Some f \<and> fsize f = 0"
  proof -
    from that have "ws s = None" and "currentFile s = Some f" and "fsize f = 0"
      by simp_all
    from sendFileChunks_no_socket_empty [OF this, of ev] show ?thesis
      by (simp add: entry_def)
  qed
  have c: "trace (sendFileChunks ev s) =
          trace s @ [ReadChunk (Blob 0 (min 1048576 (fsize f)))]
        \<and> enabled (ReadDone (length (uploads s)) ok) (sendFileChunks ev s)
        \<and> fire ev (ReadDone (length (uploads s)) ok) (sendFileChunks ev s) =
          s\<lparr>isSendingFile := False, isChatEnabled := True, isUploadingFile := False,
            messages := messages s @
              [\<lparr>mtype = JStr (str ''error''),
                content = JStr (str ''Error sending file: '' @ message ev
                  (if ok then TypeError else ProgressEvent)),
                timestamp = JStr (now ev)\<rparr>],
            uploads := uploads s @ [Returned],
            trace := trace s @ [ReadChunk (Blob 0 (min 1048576 (fsize f)))]\<rparr>"
    if "ws s = None \<and> currentFile s = Some f \<and> fsize f \<noteq> 0"
  proof -
    from that have 1: "ws s = None" and 2: "currentFile s = Some f" and 3: "fsize f \<noteq> 0"
      by simp_all
    have "trace (sendFileChunks ev s) =
          trace s @ [ReadChunk (Blob 0 (min 1048576 (fsize f)))]"
      unfolding sendFileChunks_no_socket_start [OF 2 3] by simp
    moreover have "enabled (ReadDone (length (uploads s)) ok) (sendFileChunks ev s)"
      unfolding sendFileChunks_no_socket_start [OF 2 3] by (simp add: upload_at_def)
    moreover note read_done_no_socket [OF 1 2 3, of ev ok, unfolded entry_def]
    ultimately show ?thesis by (simp only: simp_thms)
  qed
  have d: "onFileLoaded_resume ev s = s" if "\<not> (isConnected s \<and> currentFile s \<noteq> None)"
    using that by (auto simp: onFileLoaded_resume_def)
  from a b c d show ?thesis by blast
qed

theorem upload_without_open_socket_witness:
  "transmitted (trace (sendFileChunks env0 idle0)) = []
   \<and> trace (sendFileChunks env0 idle0) = [ReadChunk (Blob 0 1048576)]
   \<and> fire env0 (ReadDone 0 True) (sendFileChunks env0 idle0) =
       idle0\<lparr>isSendingFile := False, isChatEnabled := True, isUploadingFile := False,
         messages :=
           [\<lparr>mtype = JStr (str ''error''),
             content = JStr (str ''Error sending file: send failed''),
             timestamp = JStr (str ''2025-06-01T12:00:00.000Z'')\<rparr>],
         uploads := [Returned],
         trace := [ReadChunk (Blob 0 1048576)]\<rparr>
   \<and> onFileLoaded_resume env0 idle0 = idle0"
proof -
  have 1: "ws idle0 = None" and 2: "currentFile idle0 = Some log25"
    and 3: "\<not> ws_is_open idle0" and 4: "\<not> isConnected idle0" and 5: "trace idle0 = []"
    and 6: "fsize log25 \<noteq> 0" and 7: "uploads idle0 = []" and 8: "messages idle0 = []"
    and 9: "min 1048576 (fsize log25) = 1048576"
    by (simp_all add: idle0_def init_def ws_is_open_def log25_def)
  have 10: "message env0 TypeError = str ''send failed''"
    and 11: "now env0 = str ''2025-06-01T12:00:00.000Z''"
    by (simp_all add: env0_def message_def)
  note th = upload_without_open_socket [where s = idle0 and ev = env0 and f = log25
      and ok = True and u = 0]
  from th [THEN conjunct1] 3 5 have a: "transmitted (trace (sendFileChunks env0 idle0)) = []"
    by simp
  from th [THEN conjunct2, THEN conjunct2, THEN conjunct1] 1 2 6
  have b: "trace (sendFileChunks env0 idle0) =
          trace idle0 @ [ReadChunk (Blob 0 (min 1048576 (fsize log25)))]"
    and c: "fire env0 (ReadDone (length (uploads idle0)) True) (sendFileChunks env0 idle0) =
          idle0\<lparr>isSendingFile := False, isChatEnabled := True, isUploadingFile := False,
            messages := messages idle0 @
              [\<lparr>mtype = JStr (str ''error''),
                content = JStr (str ''Error sending file: '' @ message env0
                  (if True then TypeError else ProgressEvent)),
                timestamp = JStr (now env0)\<rparr>],
            uploads := uploads idle0 @ [Returned],
            trace := trace idle0 @ [ReadChunk (Blob 0 (min 1048576 (fsize log25)))]\<rparr>"
    by blast+
  from th [THEN conjunct2, THEN conjunct2, THEN conjunct2] 4
  have d: "onFileLoaded_resume env0 idle0 = idle0"
    by simp
  from b have b': "trace (sendFileChunks env0 idle0) = [ReadChunk (Blob 0 1048576)]"
    unfolding 5 9 by simp
  from c have c': "fire env0 (ReadDone 0 True) (sendFileChunks env0 idle0) =
       idle0\<lparr>isSendingFile := False, isChatEnabled := True, isUploadingFile := False,
         messages :=
           [\<lparr>mtype = JStr (str ''error''),
             content = JStr (str ''Error sending file: send failed''),
             timestamp = JStr (str ''2025-06-01T12:00:00.000Z'')\<rparr>],
         uploads := [Returned],
         trace := [ReadChunk (Blob 0 1048576)]\<rparr>"
    unfolding 5 7 8 9 11 by (simp add: 10 str_append [symmetric] del: fire.simps)
  from a b' c' d show ?thesis by (simp only: simp_thms)
qed

subsection \<open>The retry policy\<close>

text \<open>
  One event of a failing connection, and a run of them: the counter, the timeouts set
  and the terminal entries, by the number of closes.
\<close>

lemma fail_step:
  assumes "failure_event e" and "enabled e s" and "maxReconnectAttempts s = 5"
  shows "maxReconnectAttempts (fire ev e s) = 5
    \<and> reconnectAttempts (fire ev e s) =
        (if is_close e \<and> reconnectAttempts s < 5 then reconnectAttempts s + 1
         else reconnectAttempts s)
    \<and> length (timers (fire ev e s)) + (if is_timer e then 1 else 0) =
        length (timers s) + (if is_close e \<and> reconnectAttempts s < 5 then 1 else 0)
    \<and> terminal_entries (fire ev e s) =
        terminal_entries s + (if is_close e \<and> \<not> reconnectAttempts s < 5 then 1 else 0)"
proof (cases e)
  case (SockClose h)
  have "messages (set_ready h CLOSED s) = messages s" "timers (set_ready h CLOSED s) = timers s"
    "reconnectAttempts (set_ready h CLOSED s) = reconnectAttempts s"
    "maxReconnectAttempts (set_ready h CLOSED s) = maxReconnectAttempts s"
    by (simp_all add: set_ready_def)
  with SockClose assms(3) show ?thesis
    by (simp add: onclose_def Let_def push_def terminal_entries_def terminal_entry_def entry_def)
next
  case (SockError h)
  define s1 where "s1 = onerror ev s"
  have m1: "terminal_entries s1 = terminal_entries s" "timers s1 = timers s"
    "reconnectAttempts s1 = reconnectAttempts s" "maxReconnectAttempts s1 = maxReconnectAttempts s"
    by (simp_all add: s1_def onerror_def push_def terminal_entries_def terminal_entry_def entry_def
         str_eq_iff)
  obtain k s2 where st: "settle h s1 = (k, s2)" by (cases "settle h s1")
  then have m2: "messages s2 = messages s1" "timers s2 = timers s1"
    "reconnectAttempts s2 = reconnectAttempts s1" "maxReconnectAttempts s2 = maxReconnectAttempts s1"
    by (auto simp: settle_def split: if_splits)
  then have "terminal_entries s2 = terminal_entries s1" by (simp add: terminal_entries_def)
  with m1 m2 st SockError assms(3) show ?thesis
    by (cases k)
      (simp_all add: s1_def [symmetric] onFileLoaded_catch_def push_def terminal_entries_def
         terminal_entry_def entry_def str_eq_iff)
next
  case TimerFire
  from connectWebSocket_frame [of ev "s\<lparr>timers := tl (timers s)\<rparr>"] obtain cid sk w where
    "snd (connectWebSocket ev (s\<lparr>timers := tl (timers s)\<rparr>)) =
       s\<lparr>timers := tl (timers s), clientId := cid, sockets := sk, ws := w\<rparr>" by auto
  with TimerFire assms(2,3) show ?thesis
    by (cases "timers s") (simp_all add: terminal_entries_def)
qed (use assms(1) in simp_all)

lemma fail_run:
  "list_all failure_event es \<Longrightarrow> all_enabled ev es s \<Longrightarrow> maxReconnectAttempts s = 5 \<Longrightarrow>
   reconnectAttempts s \<le> 5 \<Longrightarrow>
   reconnectAttempts (run ev es s) = min (reconnectAttempts s + closes es) 5
   \<and> length (timers (run ev es s)) + attempts_made es =
       length (timers s) + (min (reconnectAttempts s + closes es) 5 - reconnectAttempts s)
   \<and> terminal_entries (run ev es s) =
       terminal_entries s + (reconnectAttempts s + closes es - 5)"
proof (induction es arbitrary: s)
  case Nil
  then show ?case by (simp add: closes_def attempts_made_def)
next
  case (Cons e es)
  from Cons.prems have fe: "failure_event e" and en: "enabled e s"
    and rest: "list_all failure_event es" "all_enabled ev es (fire ev e s)" by simp_all
  note st = fail_step [OF fe en Cons.prems(3), of ev]
  from st Cons.prems(4) have le: "reconnectAttempts (fire ev e s) \<le> 5" by (simp split: if_splits)
  from st have mx: "maxReconnectAttempts (fire ev e s) = 5" by simp
  note ih = Cons.IH [OF rest mx le]
  have c: "closes (e # es) = (if is_close e then 1 else 0) + closes es"
    and a: "attempts_made (e # es) = (if is_timer e then 1 else 0) + attempts_made es"
    by (simp_all add: closes_def attempts_made_def)
  show ?case
  proof (cases "is_close e")
    case False
    with st ih c a show ?thesis by (simp split: if_splits)
  next
    case True
    then have nt: "\<not> is_timer e" by (cases e) simp_all
    show ?thesis
    proof (cases "reconnectAttempts s < 5")
      case lt: True
      with True nt st ih c a show ?thesis by simp
    next
      case ge: False
      with Cons.prems(4) have "reconnectAttempts s = 5" by simp
      with True nt st ih c a show ?thesis by simp
    qed
  qed
qed


lemma five_closes_enabled: "all_enabled env0 five_closes connected0"
  by (simp add: five_closes_def retry_round_def run_defs)


lemma six_closes_enabled: "all_enabled env0 six_closes connected0"
  by (simp add: six_closes_def five_closes_def retry_round_def run_defs)

text \<open>
  C4, as stated, fails: after five closes in a row from a connected session the history
  holds no terminal entry, and the fifth reconnect is still pending.
\<close>

theorem five_closes_not_terminal:
  "closes five_closes = 5 \<and> list_all failure_event five_closes
   \<and> all_enabled env0 five_closes connected0
   \<and> reconnectAttempts connected0 = 0
   \<and> terminal_entries (run env0 five_closes connected0) = 0
   \<and> length (timers (run env0 five_closes connected0)) = 1"
proof -
  have c: "closes five_closes = 5" and a: "attempts_made five_closes = 4"
    and f: "list_all failure_event five_closes"
    by (simp_all add: closes_def attempts_made_def five_closes_def retry_round_def)
  have z: "reconnectAttempts connected0 = 0" "maxReconnectAttempts connected0 = 5"
    "timers connected0 = []" "terminal_entries connected0 = 0"
    by (simp_all add: connected0_def init_def terminal_entries_def)
  from fail_run [OF f five_closes_enabled] z c a five_closes_enabled f show ?thesis by simp
qed

text \<open>
  C4, amended. Start from a state whose counter is 0 (as after every \<open>open\<close>) and let
  only failure events follow: closes, errors and timers, each when it is enabled. After
  \<open>k\<close> closes the counter is \<open>min k 5\<close>, the timeouts set so far (those that have fired
  and those pending) are \<open>min k 5\<close>, and the terminal entries appended are \<open>k - 5\<close>: none
  through the fifth close, one at the sixth. Never is a sixth reconnect scheduled.
\<close>

theorem retry_budget:
  assumes "reconnectAttempts s = 0" and "maxReconnectAttempts s = 5"
    and "list_all failure_event es" and "all_enabled ev es s"
  shows "reconnectAttempts (run ev es s) = min (closes es) 5
    \<and> length (timers (run ev es s)) + attempts_made es = length (timers s) + min (closes es) 5
    \<and> terminal_entries (run ev es s) = terminal_entries s + (closes es - 5)"
  using fail_run [OF assms(3,4,2)] assms(1) by simp

theorem retry_budget_witness:
  "reconnectAttempts (run env0 six_closes connected0) = 5
   \<and> timers (run env0 six_closes connected0) = []
   \<and> terminal_entries (run env0 six_closes connected0) = 1
   \<and> closes six_closes = 6 \<and> attempts_made six_closes = 5"
proof -
  have c: "closes six_closes = 6" and a: "attempts_made six_closes = 5"
    and f: "list_all failure_event six_closes"
    by (simp_all add: closes_def attempts_made_def six_closes_def five_closes_def retry_round_def)
  have z: "reconnectAttempts connected0 = 0" "maxReconnectAttempts connected0 = 5"
    "timers connected0 = []" "terminal_entries connected0 = 0"
    by (simp_all add: connected0_def init_def terminal_entries_def)
  from retry_budget [OF z(1,2) f six_closes_enabled] z c a show ?thesis by simp
qed

subsection \<open>Disconnecting\<close>

text \<open>
  C9. After an explicit disconnect no automatic reconnect should occur, and the session
  should stay disconnected. The code does not keep this guarantee.
  \<open>disconnectWebSocket\<close> closes the socket,
  clears the handle and clears \<open>isConnected\<close>; it keeps no handle of the timeouts that
  the close handler has set and cancels none, and the close handler cannot tell the close
  that follows an explicit disconnect from an unexpected one. From a connected session:
  the socket closes, the component is destroyed, the timeout fires and the server accepts;
  and: the component is destroyed, its socket closes, the timeout fires and the server
  accepts. In both runs every event is enabled, and at the end the session is connected
  again, on a second socket, without any call to connect from outside.
\<close>

theorem reconnect_after_disconnect:
  "isConnected connected0 \<and> timers connected0 = []
   \<and> all_enabled env0 close_then_disconnect connected0
   \<and> isConnected (run env0 close_then_disconnect connected0)
   \<and> ws (run env0 close_then_disconnect connected0) = Some 1
   \<and> sock_state (run env0 close_then_disconnect connected0) 1 = OPEN
   \<and> all_enabled env0 disconnect_then_close connected0
   \<and> isConnected (run env0 disconnect_then_close connected0)
   \<and> ws (run env0 disconnect_then_close connected0) = Some 1
   \<and> sock_state (run env0 disconnect_then_close connected0) 1 = OPEN
   \<and> \<not> isConnected (fire env0 Destroy connected0)
   \<and> ws (fire env0 Destroy connected0) = None"
  by (simp add: close_then_disconnect_def disconnect_then_close_def run_defs)

text \<open>What \<open>disconnectWebSocket\<close> leaves as it was: the timeouts and the retry policy.\<close>

lemma disconnect_fields:
  "timers (disconnectWebSocket s) = timers s
   \<and> reconnectAttempts (disconnectWebSocket s) = reconnectAttempts s
   \<and> maxReconnectAttempts (disconnectWebSocket s) = maxReconnectAttempts s
   \<and> reconnectDelay (disconnectWebSocket s) = reconnectDelay s
   \<and> length (sockets (disconnectWebSocket s)) = length (sockets s)
   \<and> ws (disconnectWebSocket s) = None"
  by (simp add: disconnectWebSocket_def set_ready_def split: option.splits)

end
